theory Spec2Isabelle
  imports Main "HOL-Library.Sublist"
begin

section \<open>Strings\<close>

text \<open>
  A JavaScript string is modelled as a \<^typ>\<open>string\<close>: a list of characters with codes
  below 256 (the Latin-1 range of the UTF-16 code units).  The helpers below follow the
  ECMAScript built-ins on that range.
\<close>

definition isLower :: "char \<Rightarrow> bool" where
  "isLower c = (c \<in> set ''abcdefghijklmnopqrstuvwxyz'')"

definition isUpper :: "char \<Rightarrow> bool" where
  "isUpper c = (c \<in> set ''ABCDEFGHIJKLMNOPQRSTUVWXYZ'')"

definition isDigit :: "char \<Rightarrow> bool" where
  "isDigit c = (c \<in> set ''0123456789'')"

definition isAlpha :: "char \<Rightarrow> bool" where
  "isAlpha c = (isLower c \<or> isUpper c)"

definition isAlnum :: "char \<Rightarrow> bool" where
  "isAlnum c = (isAlpha c \<or> isDigit c)"

text \<open>
  The letters of the range that have both cases inside it: the ASCII letters, and the
  letters of the Latin-1 supplement from \<^verbatim>\<open>U+00C0\<close> to \<^verbatim>\<open>U+00DE\<close> (without the
  multiplication sign \<^verbatim>\<open>U+00D7\<close>) with their small forms from \<^verbatim>\<open>U+00E0\<close> to \<^verbatim>\<open>U+00FE\<close>
  (without the division sign \<^verbatim>\<open>U+00F7\<close>).
\<close>

definition capitalLetters :: string where
  "capitalLetters =
     ''ABCDEFGHIJKLMNOPQRSTUVWXYZ'' @
     [CHR 0xC0, CHR 0xC1, CHR 0xC2, CHR 0xC3, CHR 0xC4, CHR 0xC5, CHR 0xC6, CHR 0xC7,
      CHR 0xC8, CHR 0xC9, CHR 0xCA, CHR 0xCB, CHR 0xCC, CHR 0xCD, CHR 0xCE, CHR 0xCF,
      CHR 0xD0, CHR 0xD1, CHR 0xD2, CHR 0xD3, CHR 0xD4, CHR 0xD5, CHR 0xD6, CHR 0xD8,
      CHR 0xD9, CHR 0xDA, CHR 0xDB, CHR 0xDC, CHR 0xDD, CHR 0xDE]"

definition smallLetters :: string where
  "smallLetters =
     ''abcdefghijklmnopqrstuvwxyz'' @
     [CHR 0xE0, CHR 0xE1, CHR 0xE2, CHR 0xE3, CHR 0xE4, CHR 0xE5, CHR 0xE6, CHR 0xE7,
      CHR 0xE8, CHR 0xE9, CHR 0xEA, CHR 0xEB, CHR 0xEC, CHR 0xED, CHR 0xEE, CHR 0xEF,
      CHR 0xF0, CHR 0xF1, CHR 0xF2, CHR 0xF3, CHR 0xF4, CHR 0xF5, CHR 0xF6, CHR 0xF8,
      CHR 0xF9, CHR 0xFA, CHR 0xFB, CHR 0xFC, CHR 0xFD, CHR 0xFE]"

text \<open>
  \<^verbatim>\<open>String.prototype.toLowerCase\<close>: a capital letter becomes its small form and every
  other character of the range is kept.
\<close>

definition lowerChar :: "char \<Rightarrow> char" where
  "lowerChar c = (case map_of (zip capitalLetters smallLetters) c of None \<Rightarrow> c | Some l \<Rightarrow> l)"

definition toLowerCase :: "string \<Rightarrow> string" where
  "toLowerCase s = map lowerChar s"

text \<open>
  \<^verbatim>\<open>String.prototype.toUpperCase\<close>: a small letter becomes its capital, the sharp s
  (\<^verbatim>\<open>U+00DF\<close>) becomes \<^verbatim>\<open>SS\<close>, and every other character is kept, with two exceptions.
  The capitals of the micro sign (\<^verbatim>\<open>U+00B5\<close>) and of y with diaeresis (\<^verbatim>\<open>U+00FF\<close>) are
  \<^verbatim>\<open>U+039C\<close> and \<^verbatim>\<open>U+0178\<close>, which a \<^typ>\<open>char\<close> cannot hold: for a string with one of
  them the result is \<open>None\<close>, a string that is not in the modelled range.
\<close>

definition upperChar :: "char \<Rightarrow> string option" where
  "upperChar c =
     (if c = CHR 0xB5 \<or> c = CHR 0xFF then None
      else if c = CHR 0xDF then Some ''SS''
      else (case map_of (zip smallLetters capitalLetters) c of
              None \<Rightarrow> Some [c]
            | Some u \<Rightarrow> Some [u]))"

fun toUpperCase :: "string \<Rightarrow> string option" where
  "toUpperCase [] = Some []"
| "toUpperCase (c # cs) =
     (case upperChar c of
        None \<Rightarrow> None
      | Some u \<Rightarrow> (case toUpperCase cs of None \<Rightarrow> None | Some us \<Rightarrow> Some (u @ us)))"

text \<open>
  White space and line terminators of ECMAScript in the modelled range: TAB, LF, VT, FF,
  CR, SP and NBSP.  \<^verbatim>\<open>trim\<close> removes them at both ends.
\<close>

definition isSpace :: "char \<Rightarrow> bool" where
  "isSpace c = (c \<in> set [CHR 0x09, CHR 0x0A, CHR 0x0B, CHR 0x0C, CHR 0x0D, CHR 0x20, CHR 0xA0])"

definition trim :: "string \<Rightarrow> string" where
  "trim s = rev (dropWhile isSpace (rev (dropWhile isSpace s)))"

text \<open>
  \<open>splitFirst p s\<close> splits \<open>s\<close> at the first occurrence of \<open>p\<close>, as the search of
  \<^verbatim>\<open>String.prototype.replace\<close>, \<^verbatim>\<open>includes\<close> and \<^verbatim>\<open>indexOf\<close> does: the text
  before the match and the text after it, or \<open>None\<close> when \<open>p\<close> does not occur.
\<close>

fun splitFirst :: "string \<Rightarrow> string \<Rightarrow> (string \<times> string) option" where
  "splitFirst p [] = (if p = [] then Some ([], []) else None)"
| "splitFirst p (c # cs) =
     (if prefix p (c # cs) then Some ([], drop (length p) (c # cs))
      else map_option (\<lambda>(a, b). (c # a, b)) (splitFirst p cs))"

definition includesStr :: "string \<Rightarrow> string \<Rightarrow> bool" where
  "includesStr s p = (splitFirst p s \<noteq> None)"

section \<open>Variable substitution (lib/inference: fillInVariables)\<close>

text \<open>
  \<^verbatim>\<open>text.replace(placeholder, value)\<close> with a string pattern replaces the first match
  only, and expands the replacement patterns of \<^verbatim>\<open>GetSubstitution\<close> in \<open>value\<close>:
  \<^verbatim>\<open>$$\<close> is a dollar sign, \<^verbatim>\<open>$&\<close> the matched text, \<^verbatim>\<open>$`\<close> the text before the match and
  \<^verbatim>\<open>$'\<close> the text after it.  A string pattern has no capture groups, so \<^verbatim>\<open>$1\<close>,
  \<^verbatim>\<open>$<\<close> and any other \<^verbatim>\<open>$\<close> stay as they are.
\<close>

fun getSubstitution :: "string \<Rightarrow> string \<Rightarrow> string \<Rightarrow> string \<Rightarrow> string" where
  "getSubstitution matched pre post [] = []"
| "getSubstitution matched pre post [c] = [c]"
| "getSubstitution matched pre post (c # d # r) =
     (if c = CHR ''$'' \<and> d = CHR ''$'' then CHR ''$'' # getSubstitution matched pre post r
      else if c = CHR ''$'' \<and> d = CHR ''&'' then matched @ getSubstitution matched pre post r
      else if c = CHR ''$'' \<and> d = CHR 0x60 then pre @ getSubstitution matched pre post r
      else if c = CHR ''$'' \<and> d = CHR 0x27 then post @ getSubstitution matched pre post r
      else c # getSubstitution matched pre post (d # r))"

definition replace :: "string \<Rightarrow> string \<Rightarrow> string \<Rightarrow> string" where
  "replace s p v =
     (case splitFirst p s of
        None \<Rightarrow> s
      | Some (pre, post) \<Rightarrow> pre @ getSubstitution p pre post v @ post)"

text \<open>
  The template literal \<^verbatim>\<open>`<|${key.toUpperCase()}|>`\<close>.  It is \<open>None\<close> when the upper-cased
  key is not in the modelled range.  Such a placeholder occurs in no text of the range, so
  \<^verbatim>\<open>replace\<close> finds no match and returns the text as it is.
\<close>

definition placeholder :: "string \<Rightarrow> string option" where
  "placeholder key = map_option (\<lambda>upper. ''<|'' @ upper @ ''|>'') (toUpperCase key)"

text \<open>
  \<open>variables\<close> is the list \<^verbatim>\<open>Object.entries(variables)\<close> in its enumeration order; the
  \<^verbatim>\<open>forEach\<close> is a left fold over it.
\<close>

fun fillInVariables :: "string \<Rightarrow> (string \<times> string) list \<Rightarrow> string" where
  "fillInVariables processedText [] = processedText"
| "fillInVariables processedText ((key, v) # variables) =
     fillInVariables
       (case placeholder key of
          None \<Rightarrow> processedText
        | Some p \<Rightarrow> replace processedText p v)
       variables"

section \<open>Values, usage records and errors\<close>

text \<open>
  The values a model client hands back at run time.  Numbers are the integers (token
  counts and millisecond clocks stay far below \<open>2^53\<close>, where the doubles are exact).  An
  object is the list of its own enumerable properties in enumeration order.
\<close>

datatype jsval =
    JUndefined
  | JNull
  | JBool bool
  | JNum int
  | JStr string
  | JArr "jsval list"
  | JObj "(string \<times> jsval) list"

text \<open>
  Exceptions.  \<open>Thrown m\<close> is an error of a collaborator with its message.  \<open>OutOfFuel\<close> is
  no exception of the program: it marks a recursion of the model that was cut off, and
  the functions that use it are shown never to return it.
\<close>

datatype error = TypeError | SyntaxError | RangeError | Thrown string | OutOfFuel

text \<open>\<^verbatim>\<open>!v\<close>, \<^verbatim>\<open>typeof v\<close> and the property read \<^verbatim>\<open>v.key\<close> of a value that is not nullish.\<close>

fun falsy :: "jsval \<Rightarrow> bool" where
  "falsy JUndefined = True"
| "falsy JNull = True"
| "falsy (JBool b) = (\<not> b)"
| "falsy (JNum n) = (n = 0)"
| "falsy (JStr s) = (s = [])"
| "falsy (JArr xs) = False"
| "falsy (JObj kvs) = False"

fun typeof :: "jsval \<Rightarrow> string" where
  "typeof JUndefined = ''undefined''"
| "typeof JNull = ''object''"
| "typeof (JBool b) = ''boolean''"
| "typeof (JNum n) = ''number''"
| "typeof (JStr s) = ''string''"
| "typeof (JArr xs) = ''object''"
| "typeof (JObj kvs) = ''object''"

fun getProp :: "jsval \<Rightarrow> string \<Rightarrow> jsval" where
  "getProp (JObj kvs) key = (case map_of kvs key of None \<Rightarrow> JUndefined | Some v \<Rightarrow> v)"
| "getProp v key = JUndefined"

text \<open>Decimal digits of a natural number, as the template literal \<^verbatim>\<open>`${n}`\<close> prints it.\<close>

fun showNat :: "nat \<Rightarrow> string" where
  "showNat n =
     (if n < 10 then [''0123456789'' ! n] else showNat (n div 10) @ [''0123456789'' ! (n mod 10)])"

declare showNat.simps [simp del]

text \<open>
  Object literals: \<open>setProp\<close> writes one property (an existing key keeps its place), and
  \<open>spread\<close> lists the own enumerable properties that \<^verbatim>\<open>{...v}\<close> copies.
\<close>

fun setProp :: "string \<Rightarrow> jsval \<Rightarrow> (string \<times> jsval) list \<Rightarrow> (string \<times> jsval) list" where
  "setProp key v [] = [(key, v)]"
| "setProp key v ((k, w) # kvs) = (if k = key then (k, v) # kvs else (k, w) # setProp key v kvs)"

fun spread :: "jsval \<Rightarrow> (string \<times> jsval) list" where
  "spread (JObj kvs) = fold (\<lambda>(k, v). setProp k v) kvs []"
| "spread (JArr xs) = map (\<lambda>i. (showNat i, xs ! i)) [0..<length xs]"
| "spread (JStr s) = map (\<lambda>i. (showNat i, JStr [s ! i])) [0..<length s]"
| "spread v = []"

text \<open>The \<^verbatim>\<open>LLMUsage\<close> interface, and \<^verbatim>\<open>usage?.prompt_tokens ?? 0\<close>.\<close>

record LLMUsage =
  prompt_tokens :: int
  completion_tokens :: int
  total_tokens :: int

definition promptTokensOf :: "LLMUsage option \<Rightarrow> int" where
  "promptTokensOf usage = (case usage of None \<Rightarrow> 0 | Some u \<Rightarrow> prompt_tokens u)"

definition completionTokensOf :: "LLMUsage option \<Rightarrow> int" where
  "completionTokensOf usage = (case usage of None \<Rightarrow> 0 | Some u \<Rightarrow> completion_tokens u)"

text \<open>\<^verbatim>\<open>LLMParsedResponse<T>\<close>: what a schema call resolves to.\<close>

datatype LLMParsedResponse = LLMParsedResponse (data: jsval) (usage: "LLMUsage option")

section \<open>verifyActCompletion\<close>

text \<open>
  The function makes one model call; \<open>rawResponse\<close> is what \<^verbatim>\<open>createChatCompletion\<close>
  resolved to (\<open>Inl\<close> when the call rejected), and \<open>start\<close>, \<open>end\<close> are the two readings of
  \<^verbatim>\<open>Date.now()\<close> around it.  The logger and the optional inference log files only observe
  the values and are left out.
\<close>

record VerifyActCompletionResult =
  completed :: jsval
  v_prompt_tokens :: int
  v_completion_tokens :: int
  v_inference_time_ms :: int

definition verifyActCompletion ::
  "(error + LLMParsedResponse) \<Rightarrow> int \<Rightarrow> int \<Rightarrow> error + VerifyActCompletionResult" where
  "verifyActCompletion rawResponse start endTime =
     (case rawResponse of
        Inl e \<Rightarrow> Inl e
      | Inr parsedResponse \<Rightarrow>
          (let inferenceTimeMs = endTime - start;
               verificationData = data parsedResponse;
               verificationUsage = usage parsedResponse
           in if falsy verificationData \<or> typeof verificationData \<noteq> ''object'' then
                Inr \<lparr>completed = JBool False,
                     v_prompt_tokens = promptTokensOf verificationUsage,
                     v_completion_tokens = completionTokensOf verificationUsage,
                     v_inference_time_ms = inferenceTimeMs\<rparr>
              else if getProp verificationData ''completed'' = JUndefined then
                Inr \<lparr>completed = JBool False,
                     v_prompt_tokens = promptTokensOf verificationUsage,
                     v_completion_tokens = completionTokensOf verificationUsage,
                     v_inference_time_ms = inferenceTimeMs\<rparr>
              else
                Inr \<lparr>completed = getProp verificationData ''completed'',
                     v_prompt_tokens = promptTokensOf verificationUsage,
                     v_completion_tokens = completionTokensOf verificationUsage,
                     v_inference_time_ms = inferenceTimeMs\<rparr>))"

section \<open>act\<close>

text \<open>
  The tool-calling response: \<^verbatim>\<open>rawResponse.choices?.[0]?.message?.tool_calls\<close> walks
  optional fields, each of which may be absent.
\<close>

datatype tool_call = ToolCall (function_name: string) (function_arguments: string)

datatype message = Message (tool_calls: "tool_call list option")

datatype choice = Choice (message: "message option")

datatype LLMResponse = LLMResponse (r_usage: "LLMUsage option") (choices: "choice list option")

definition toolCallsOf :: "LLMResponse \<Rightarrow> tool_call list option" where
  "toolCallsOf rawResponse =
     (case choices rawResponse of
        None \<Rightarrow> None
      | Some [] \<Rightarrow> None
      | Some (c # cs) \<Rightarrow> (case message c of None \<Rightarrow> None | Some m \<Rightarrow> tool_calls m))"

text \<open>
  \<open>llmClient n\<close> is the outcome of the model call made after \<open>n\<close> earlier ones, and
  \<open>JSON_parse\<close> is \<^verbatim>\<open>JSON.parse\<close>, which throws on malformed text.  \<open>act\<close> returns the
  value the promise settles to (\<open>Inr None\<close> is \<^verbatim>\<open>null\<close>) and the number of model calls
  made so far.  A retry is the recursive call with \<open>retries + 1\<close>.
\<close>

function act ::
  "(string \<Rightarrow> error + 'j) \<Rightarrow> (nat \<Rightarrow> error + LLMResponse) \<Rightarrow> nat \<Rightarrow> nat \<Rightarrow> (error + 'j option) \<times> nat" where
  "act JSON_parse llmClient calls retries =
     (case llmClient calls of
        Inl e \<Rightarrow> (Inl e, Suc calls)
      | Inr rawResponse \<Rightarrow>
          (case toolCallsOf rawResponse of
             Some (tc # rest) \<Rightarrow>
               if function_name tc = ''skipSection'' then (Inr None, Suc calls)
               else (case JSON_parse (function_arguments tc) of
                       Inl e \<Rightarrow> (Inl e, Suc calls)
                     | Inr v \<Rightarrow> (Inr (Some v), Suc calls))
           | _ \<Rightarrow>
               if retries \<ge> 2 then (Inr None, Suc calls)
               else act JSON_parse llmClient (Suc calls) (retries + 1)))"
  by pat_completeness auto
termination
  by (relation "measure (\<lambda>(p, c, n, retries). 2 - retries)") auto

declare act.simps [simp del]

section \<open>extract\<close>

text \<open>
  (The function is named \<open>extract_fn\<close> here.)  Three model calls in sequence (extract, refine, metadata); \<open>llmClient n\<close> is the outcome
  of the call number \<open>n\<close>, and \<open>clock\<close> lists the six readings of \<^verbatim>\<open>Date.now()\<close>, a start
  and an end per call.  The destructuring of the metadata response reads two properties
  of its \<open>data\<close> and throws a \<^verbatim>\<open>TypeError\<close> when \<open>data\<close> is nullish.  The result is the
  object literal: the spread of the refined data, then \<open>metadata\<close> and the three totals.
\<close>

record clock_readings =
  extractStartTime :: int
  extractEndTime :: int
  refineStartTime :: int
  refineEndTime :: int
  metadataStartTime :: int
  metadataEndTime :: int

definition extract_fn ::
  "(nat \<Rightarrow> error + LLMParsedResponse) \<Rightarrow> clock_readings \<Rightarrow> error + jsval" where
  "extract_fn llmClient clock =
     (case llmClient 0 of
        Inl e \<Rightarrow> Inl e
      | Inr extractionResponse \<Rightarrow>
     (case llmClient 1 of
        Inl e \<Rightarrow> Inl e
      | Inr refinedResponse \<Rightarrow>
     (case llmClient 2 of
        Inl e \<Rightarrow> Inl e
      | Inr metadataResponse \<Rightarrow>
          if data metadataResponse = JUndefined \<or> data metadataResponse = JNull then Inl TypeError
          else
            (let extractUsage = usage extractionResponse;
                 refinedResponseData = data refinedResponse;
                 refinedResponseUsage = usage refinedResponse;
                 metadataResponseCompleted = getProp (data metadataResponse) ''completed'';
                 metadataResponseProgress = getProp (data metadataResponse) ''progress'';
                 metadataResponseUsage = usage metadataResponse;
                 totalPromptTokens =
                   promptTokensOf extractUsage + promptTokensOf refinedResponseUsage
                     + promptTokensOf metadataResponseUsage;
                 totalCompletionTokens =
                   completionTokensOf extractUsage + completionTokensOf refinedResponseUsage
                     + completionTokensOf metadataResponseUsage;
                 totalInferenceTimeMs =
                   extractEndTime clock - extractStartTime clock
                     + (refineEndTime clock - refineStartTime clock)
                     + (metadataEndTime clock - metadataStartTime clock)
             in Inr (JObj
                  (setProp ''inference_time_ms'' (JNum totalInferenceTimeMs)
                  (setProp ''completion_tokens'' (JNum totalCompletionTokens)
                  (setProp ''prompt_tokens'' (JNum totalPromptTokens)
                  (setProp ''metadata''
                     (JObj [(''completed'', metadataResponseCompleted),
                            (''progress'', metadataResponseProgress)])
                  (spread refinedResponseData))))))))))"

section \<open>parseInt\<close>

text \<open>
  \<^verbatim>\<open>parseInt(string, radix)\<close>: leading white space is skipped, a sign is read, with no
  radix (or radix 16) a prefix \<^verbatim>\<open>0x\<close> or \<^verbatim>\<open>0X\<close> selects base 16, and the longest run of
  digits of the base is the value; without any digit the result is \<^verbatim>\<open>NaN\<close>, here \<open>None\<close>.
  The radix is \<open>None\<close> when the argument is absent, else a number from 2 to 36.  Only the
  sign of the result matters below, and \<^verbatim>\<open>-0 < 0\<close> is false as \<open>0 < 0\<close> is.
\<close>

definition digitVal :: "char \<Rightarrow> nat option" where
  "digitVal c =
     (if isDigit c then map_of (zip ''0123456789'' [0 ..< 10]) c
      else if isLower c then map_of (zip ''abcdefghijklmnopqrstuvwxyz'' [10 ..< 36]) c
      else if isUpper c then map_of (zip ''ABCDEFGHIJKLMNOPQRSTUVWXYZ'' [10 ..< 36]) c
      else None)"

definition isDigitOf :: "nat \<Rightarrow> char \<Rightarrow> bool" where
  "isDigitOf R c = (case digitVal c of None \<Rightarrow> False | Some d \<Rightarrow> d < R)"

definition digitsValue :: "nat \<Rightarrow> string \<Rightarrow> int" where
  "digitsValue R Z = fold (\<lambda>c acc. acc * int R + int (the (digitVal c))) Z 0"

definition parseInt :: "string \<Rightarrow> nat option \<Rightarrow> int option" where
  "parseInt inputString radix =
     (let S = dropWhile isSpace inputString;
          negative = (S \<noteq> [] \<and> hd S = CHR ''-'');
          S1 = (if S \<noteq> [] \<and> (hd S = CHR ''+'' \<or> hd S = CHR ''-'') then tl S else S);
          stripPrefix = (radix = None \<or> radix = Some 16);
          hex = (stripPrefix \<and> (take 2 S1 = ''0x'' \<or> take 2 S1 = ''0X''));
          R = (if hex then 16 else case radix of None \<Rightarrow> 10 | Some r \<Rightarrow> r);
          S2 = (if hex then drop 2 S1 else S1);
          Z = takeWhile (isDigitOf R) S2
      in if Z = [] then None
         else Some ((if negative then - 1 else 1) * digitsValue R Z))"

definition isNegative :: "int option \<Rightarrow> bool" where
  "isNegative r = (case r of None \<Rightarrow> False | Some n \<Rightarrow> n < 0)"

section \<open>Accessibility tree (lib/a11y/utils)\<close>

text \<open>
  The properties every accessibility node carries, the flat node of the input (with the
  links \<open>parentId\<close> and \<open>childIds\<close>), and the object that the builder stores in \<open>nodeMap\<close>.
  Stored objects are shared and mutated (\<^verbatim>\<open>parentNode.children.push(currentNode)\<close>), so
  the store maps the key of each object to its properties and to the keys of the objects
  in its \<open>children\<close> array; \<open>None\<close> is an absent property.
\<close>

record AXProps =
  role :: string
  nodeId :: string
  name :: "string option"
  description :: "string option"
  nodeValue :: "string option"
  backendDOMNodeId :: "int option"
  xpath :: "string option"

record AccessibilityNode = AXProps +
  parentId :: "string option"
  childIds :: "string list option"

record StoredNode = AXProps +
  childRefs :: "string list option"

text \<open>The tree that is returned: a node owns the array of its children.\<close>

datatype AccessibilityTree = Node (props: AXProps) (children: "AccessibilityTree list option")

type_synonym nodeMap = "string \<Rightarrow> StoredNode option"

definition truthyStr :: "string option \<Rightarrow> bool" where
  "truthyStr s = (case s of None \<Rightarrow> False | Some t \<Rightarrow> t \<noteq> [])"

definition isStructural :: "string \<Rightarrow> bool" where
  "isStructural r = (r = ''generic'' \<or> r = ''none'')"

text \<open>formatSimplifiedTree: one line per node, two spaces of indent per level.\<close>

fun formatSimplifiedTree :: "AccessibilityTree \<Rightarrow> nat \<Rightarrow> string" where
  "formatSimplifiedTree (Node p cs) level =
     concat (replicate level ''  '') @ ''['' @ nodeId p @ ''] '' @ role p
       @ (if truthyStr (name p) then '': '' @ the (name p) else [])
       @ [CHR 0x0A]
       @ (case cs of
            None \<Rightarrow> []
          | Some ts \<Rightarrow> concat (map (\<lambda>child. formatSimplifiedTree child (level + 1)) ts))"

text \<open>
  Evaluating a list of calls from left to right: the first exception ends it.
\<close>

fun sequence :: "(error + 'a) list \<Rightarrow> error + 'a list" where
  "sequence [] = Inr []"
| "sequence (x # xs) =
     (case x of
        Inl e \<Rightarrow> Inl e
      | Inr v \<Rightarrow> (case sequence xs of Inl e \<Rightarrow> Inl e | Inr vs \<Rightarrow> Inr (v # vs)))"

text \<open>
  Reading a stored object as a tree follows the references, as formatSimplifiedTree and
  every reader of the result do.  \<open>visited\<close> lists the objects whose reading is under way
  further up the call stack.  Reaching one of them again repeats its call without end; the
  source then overflows the stack, a \<^verbatim>\<open>RangeError\<close>.  The stack of the engine is taken to be
  deep enough for every chain of distinct objects, so that only a cycle overflows it.
  \<open>fuel\<close> bounds the depth of the recursion of the model.
\<close>

fun deref :: "nat \<Rightarrow> string list \<Rightarrow> nodeMap \<Rightarrow> string \<Rightarrow> error + AccessibilityTree" where
  "deref 0 visited nm k = Inl OutOfFuel"
| "deref (Suc fuel) visited nm k =
     (if k \<in> set visited then Inl RangeError
      else
        (case nm k of
           None \<Rightarrow> Inl TypeError
         | Some node \<Rightarrow>
             (case childRefs node of
                None \<Rightarrow> Inr (Node (AXProps.truncate node) None)
              | Some refs \<Rightarrow>
                  (case sequence (map (deref fuel (k # visited) nm) refs) of
                     Inl e \<Rightarrow> Inl e
                   | Inr ts \<Rightarrow> Inr (Node (AXProps.truncate node) (Some ts))))))"

text \<open>
  cleanStructuralNodes, on the object with key \<open>k\<close>; \<open>Inr None\<close> is \<^verbatim>\<open>null\<close>.  Where the
  source returns \<open>node\<close> itself, the result is that object as it is stored, with the
  \<open>children\<close> it has there, read as a tree with the depth bound \<open>limit\<close>.
\<close>

fun cleanStructuralNodes ::
  "nat \<Rightarrow> nat \<Rightarrow> string list \<Rightarrow> nodeMap \<Rightarrow> string \<Rightarrow> error + AccessibilityTree option" where
  "cleanStructuralNodes limit 0 visited nm k = Inl OutOfFuel"
| "cleanStructuralNodes limit (Suc fuel) visited nm k =
     (if k \<in> set visited then Inl RangeError
      else
        (case nm k of
           None \<Rightarrow> Inl TypeError
         | Some node \<Rightarrow>
             if nodeId node \<noteq> [] \<and> isNegative (parseInt (nodeId node) None) then Inr None
             else
               (case childRefs node of
                  None \<Rightarrow>
                    if isStructural (role node) then Inr None
                    else Inr (Some (Node (AXProps.truncate node) None))
                | Some refs \<Rightarrow>
                    (case sequence (map (cleanStructuralNodes limit fuel (k # visited) nm) refs) of
                       Inl e \<Rightarrow> Inl e
                     | Inr rs \<Rightarrow>
                         (let cleanedChildren = List.map_filter id rs
                          in if isStructural (role node) then
                               (if length cleanedChildren = 1 then Inr (Some (hd cleanedChildren))
                                else if length cleanedChildren > 1 then
                                  Inr (Some (Node (AXProps.truncate node) (Some cleanedChildren)))
                                else Inr None)
                             else if length cleanedChildren > 0 then
                               Inr (Some (Node (AXProps.truncate node) (Some cleanedChildren)))
                             else map_sum id Some (deref limit [] nm k))))))"

text \<open>
  buildHierarchicalTree.  First pass: \<open>firstPass\<close> is the body of the \<^verbatim>\<open>forEach\<close> that fills
  \<open>nodeMap\<close>.  Second pass: \<open>secondPass\<close> pushes each retained node to the \<open>children\<close> of its
  parent.  Final pass: the retained nodes without \<open>parentId\<close> are cleaned and the
  survivors are the tree.
\<close>

definition hasValidName :: "'a AccessibilityNode_scheme \<Rightarrow> bool" where
  "hasValidName node = (case name node of None \<Rightarrow> False | Some n \<Rightarrow> n \<noteq> [] \<and> trim n \<noteq> [])"

definition hasChildren :: "'a AccessibilityNode_scheme \<Rightarrow> bool" where
  "hasChildren node = (case childIds node of None \<Rightarrow> False | Some ids \<Rightarrow> length ids > 0)"

definition isInteractive :: "'a AccessibilityNode_scheme \<Rightarrow> bool" where
  "isInteractive node =
     (role node \<noteq> ''none'' \<and> role node \<noteq> ''generic'' \<and> role node \<noteq> ''InlineTextBox'')"

definition firstPass :: "AccessibilityNode \<Rightarrow> nodeMap \<Rightarrow> nodeMap" where
  "firstPass node nm =
     (if isNegative (parseInt (nodeId node) (Some 10)) then nm
      else if \<not> hasValidName node \<and> \<not> hasChildren node \<and> \<not> isInteractive node then nm
      else nm(nodeId node \<mapsto>
             \<lparr>role = role node,
              nodeId = nodeId node,
              name = (if hasValidName node then name node else None),
              description = (if truthyStr (description node) then description node else None),
              nodeValue = (if truthyStr (nodeValue node) then nodeValue node else None),
              backendDOMNodeId = backendDOMNodeId node,
              xpath = (if truthyStr (xpath node) then xpath node else None),
              childRefs = None\<rparr>))"

definition pushChild :: "string \<Rightarrow> StoredNode \<Rightarrow> StoredNode" where
  "pushChild ref parentNode =
     parentNode\<lparr>childRefs := Some ((case childRefs parentNode of None \<Rightarrow> [] | Some refs \<Rightarrow> refs) @ [ref])\<rparr>"

definition secondPass :: "AccessibilityNode \<Rightarrow> nodeMap \<Rightarrow> nodeMap" where
  "secondPass node nm =
     (if truthyStr (parentId node) \<and> nm (nodeId node) \<noteq> None then
        (case nm (the (parentId node)) of
           None \<Rightarrow> nm
         | Some parentNode \<Rightarrow> nm(the (parentId node) \<mapsto> pushChild (nodeId node) parentNode))
      else nm)"

definition rootNodes :: "AccessibilityNode list \<Rightarrow> nodeMap \<Rightarrow> string list" where
  "rootNodes nodes nm =
     map nodeId (filter (\<lambda>node. \<not> truthyStr (parentId node) \<and> nm (nodeId node) \<noteq> None) nodes)"

definition joinWith :: "string \<Rightarrow> string list \<Rightarrow> string" where
  "joinWith sep xs = (case xs of [] \<Rightarrow> [] | y # ys \<Rightarrow> y @ concat (map (\<lambda>z. sep @ z) ys))"

record TreeResult =
  tree :: "AccessibilityTree list"
  simplified :: string

definition linkedMap :: "AccessibilityNode list \<Rightarrow> nodeMap" where
  "linkedMap nodes = fold secondPass nodes (fold firstPass nodes Map.empty)"

definition buildHierarchicalTree :: "AccessibilityNode list \<Rightarrow> error + TreeResult" where
  "buildHierarchicalTree nodes =
     (let nm = linkedMap nodes;
          depth = Suc (length nodes)
      in case sequence (map (cleanStructuralNodes depth depth [] nm) (rootNodes nodes nm)) of
           Inl e \<Rightarrow> Inl e
         | Inr rs \<Rightarrow>
             (let finalTree = List.map_filter id rs
              in Inr \<lparr>tree = finalTree,
                      simplified =
                        joinWith [CHR 0x0A] (map (\<lambda>node. formatSimplifiedTree node 0) finalTree)\<rparr>))"

section \<open>Regular expressions\<close>

text \<open>
  The regular expressions of the source are written with the constructors below and
  matched by derivatives.  \<open>Sym P\<close> is one character satisfying \<open>P\<close>.
\<close>

datatype rx = Nothing | Empty | Sym "char \<Rightarrow> bool" | Alt rx rx | Seq rx rx | Star rx

fun nullable :: "rx \<Rightarrow> bool" where
  "nullable Nothing = False"
| "nullable Empty = True"
| "nullable (Sym P) = False"
| "nullable (Alt r s) = (nullable r \<or> nullable s)"
| "nullable (Seq r s) = (nullable r \<and> nullable s)"
| "nullable (Star r) = True"

fun deriv :: "char \<Rightarrow> rx \<Rightarrow> rx" where
  "deriv c Nothing = Nothing"
| "deriv c Empty = Nothing"
| "deriv c (Sym P) = (if P c then Empty else Nothing)"
| "deriv c (Alt r s) = Alt (deriv c r) (deriv c s)"
| "deriv c (Seq r s) =
     (if nullable r then Alt (Seq (deriv c r) s) (deriv c s) else Seq (deriv c r) s)"
| "deriv c (Star r) = Seq (deriv c r) (Star r)"

fun matches :: "rx \<Rightarrow> string \<Rightarrow> bool" where
  "matches r [] = nullable r"
| "matches r (c # cs) = matches (deriv c r) cs"

text \<open>The language of an expression, which the matcher decides (lemma \<open>matches_lang\<close>).\<close>

inductive_set starL :: "string set \<Rightarrow> string set" for L :: "string set" where
  empty: "[] \<in> starL L"
| more: "u \<in> L \<Longrightarrow> v \<in> starL L \<Longrightarrow> u @ v \<in> starL L"

fun lang :: "rx \<Rightarrow> string set" where
  "lang Nothing = {}"
| "lang Empty = {[]}"
| "lang (Sym P) = {[c] | c. P c}"
| "lang (Alt r s) = lang r \<union> lang s"
| "lang (Seq r s) = {u @ v | u v. u \<in> lang r \<and> v \<in> lang s}"
| "lang (Star r) = starL (lang r)"

text \<open>
  Literals, \<^verbatim>\<open>r+\<close>, \<^verbatim>\<open>r?\<close>, \<^verbatim>\<open>r{n,}\<close>, alternatives of literals, and the dot, which
  matches anything but a line terminator.
\<close>

definition rxChar :: "char \<Rightarrow> rx" where
  "rxChar c = Sym (\<lambda>d. d = c)"

fun rxLit :: "string \<Rightarrow> rx" where
  "rxLit [] = Empty"
| "rxLit (c # cs) = Seq (rxChar c) (rxLit cs)"

definition rxPlus :: "rx \<Rightarrow> rx" where
  "rxPlus r = Seq r (Star r)"

definition rxOpt :: "rx \<Rightarrow> rx" where
  "rxOpt r = Alt Empty r"

fun rxAtLeast :: "nat \<Rightarrow> rx \<Rightarrow> rx" where
  "rxAtLeast 0 r = Star r"
| "rxAtLeast (Suc n) r = Seq r (rxAtLeast n r)"

fun rxOneOf :: "string list \<Rightarrow> rx" where
  "rxOneOf [] = Nothing"
| "rxOneOf (w # ws) = Alt (rxLit w) (rxOneOf ws)"

definition rxAny :: rx where
  "rxAny = Sym (\<lambda>c. True)"

definition rxDot :: rx where
  "rxDot = Sym (\<lambda>c. c \<noteq> CHR 0x0A \<and> c \<noteq> CHR 0x0D)"

fun rxSeq :: "rx list \<Rightarrow> rx" where
  "rxSeq [] = Empty"
| "rxSeq (r # rs) = Seq r (rxSeq rs)"

text \<open>
  \<^verbatim>\<open>/^r$/.test(s)\<close>, \<^verbatim>\<open>/^r/.test(s)\<close> and \<^verbatim>\<open>/r/.test(s)\<close>.
\<close>

definition testFull :: "rx \<Rightarrow> string \<Rightarrow> bool" where
  "testFull r s = matches r s"

definition testPrefix :: "rx \<Rightarrow> string \<Rightarrow> bool" where
  "testPrefix r s = matches (Seq r (Star rxAny)) s"

definition testSearch :: "rx \<Rightarrow> string \<Rightarrow> bool" where
  "testSearch r s = matches (Seq (Star rxAny) (Seq r (Star rxAny))) s"

definition isHexLower :: "char \<Rightarrow> bool" where
  "isHexLower c = (c \<in> set ''0123456789abcdef'')"

definition isLowerAlnum :: "char \<Rightarrow> bool" where
  "isLowerAlnum c = (isLower c \<or> isDigit c)"

section \<open>CSS.escape\<close>

text \<open>
  The serialisation of an identifier (CSSOM).  Control characters, a leading digit and a
  digit after a leading hyphen are written as a code point escape: a backslash, the code
  in hexadecimal and a space.  Letters, digits, hyphen, underscore and characters from
  \<open>0x80\<close> on are kept; any other character gets a backslash.  The character NUL becomes
  the replacement character \<^verbatim>\<open>U+FFFD\<close>, which a \<^typ>\<open>char\<close> cannot hold and which is
  written here as its escape \<^verbatim>\<open>\fffd\<close>.
\<close>

definition controlChars :: "char list" where
  "controlChars =
     [
      CHR 0x01, CHR 0x02, CHR 0x03, CHR 0x04, CHR 0x05, CHR 0x06, CHR 0x07, CHR 0x08,
      CHR 0x09, CHR 0x0A, CHR 0x0B, CHR 0x0C, CHR 0x0D, CHR 0x0E, CHR 0x0F, CHR 0x10,
      CHR 0x11, CHR 0x12, CHR 0x13, CHR 0x14, CHR 0x15, CHR 0x16, CHR 0x17, CHR 0x18,
      CHR 0x19, CHR 0x1A, CHR 0x1B, CHR 0x1C, CHR 0x1D, CHR 0x1E, CHR 0x1F, CHR 0x7F]"

definition cssHex :: "char \<Rightarrow> string" where
  "cssHex c =
     (case map_of [
      (CHR 0x01, ''1''), (CHR 0x02, ''2''), (CHR 0x03, ''3''), (CHR 0x04, ''4''),
      (CHR 0x05, ''5''), (CHR 0x06, ''6''), (CHR 0x07, ''7''), (CHR 0x08, ''8''),
      (CHR 0x09, ''9''), (CHR 0x0A, ''a''), (CHR 0x0B, ''b''), (CHR 0x0C, ''c''),
      (CHR 0x0D, ''d''), (CHR 0x0E, ''e''), (CHR 0x0F, ''f''), (CHR 0x10, ''10''),
      (CHR 0x11, ''11''), (CHR 0x12, ''12''), (CHR 0x13, ''13''), (CHR 0x14, ''14''),
      (CHR 0x15, ''15''), (CHR 0x16, ''16''), (CHR 0x17, ''17''), (CHR 0x18, ''18''),
      (CHR 0x19, ''19''), (CHR 0x1A, ''1a''), (CHR 0x1B, ''1b''), (CHR 0x1C, ''1c''),
      (CHR 0x1D, ''1d''), (CHR 0x1E, ''1e''), (CHR 0x1F, ''1f''), (CHR 0x7F, ''7f''),
      (CHR ''0'', ''30''), (CHR ''1'', ''31''), (CHR ''2'', ''32''), (CHR ''3'', ''33''),
      (CHR ''4'', ''34''), (CHR ''5'', ''35''), (CHR ''6'', ''36''), (CHR ''7'', ''37''),
      (CHR ''8'', ''38''), (CHR ''9'', ''39'')] c of
        None \<Rightarrow> [] | Some h \<Rightarrow> h)"

definition escapeChar :: "string \<Rightarrow> nat \<Rightarrow> char \<Rightarrow> string" where
  "escapeChar s i c =
     (if c = CHR 0x00 then CHR 0x5C # ''fffd ''
      else if c \<in> set controlChars \<or> (i = 0 \<and> isDigit c)
              \<or> (i = 1 \<and> isDigit c \<and> hd s = CHR ''-'')
        then CHR 0x5C # cssHex c @ '' ''
      else if i = 0 \<and> c = CHR ''-'' \<and> length s = 1 then [CHR 0x5C, c]
      else if digit7 c \<or> c = CHR ''-'' \<or> c = CHR ''_'' \<or> isAlnum c then [c]
      else [CHR 0x5C, c])"

definition CSS_escape :: "string \<Rightarrow> string" where
  "CSS_escape s = concat (map (\<lambda>i. escapeChar s i (s ! i)) [0 ..< length s])"

section \<open>Documents\<close>

text \<open>
  A document of HTML elements: the root element with its subtree.  An element has its
  \<open>tagName\<close>, its attributes (names in lower case, each once) and its child nodes, which
  are elements and text nodes.  An element is identified by its path, the indices of the
  child nodes from the root down; the empty path is the root, whose \<open>parentElement\<close> is
  \<^verbatim>\<open>null\<close>.  The \<open>className\<close> of an HTML element is a string, the value of its \<^verbatim>\<open>class\<close>
  attribute, so the test of the source that \<^verbatim>\<open>typeof element.className\<close> is string holds;
  elements of another namespace, such as SVG, whose \<open>className\<close> is an object, are not
  part of the model.
\<close>

datatype dnode = Element string "(string \<times> string) list" "dnode list" | Text string

type_synonym path = "nat list"

fun isElement :: "dnode \<Rightarrow> bool" where
  "isElement (Element t as cs) = True"
| "isElement (Text s) = False"

fun tagName :: "dnode \<Rightarrow> string" where
  "tagName (Element t as cs) = t"
| "tagName (Text s) = []"

fun attributes :: "dnode \<Rightarrow> (string \<times> string) list" where
  "attributes (Element t as cs) = as"
| "attributes (Text s) = []"

fun childNodes :: "dnode \<Rightarrow> dnode list" where
  "childNodes (Element t as cs) = cs"
| "childNodes (Text s) = []"

fun textContent :: "dnode \<Rightarrow> string" where
  "textContent (Text s) = s"
| "textContent (Element t as cs) = concat (map textContent cs)"

fun nodeAt :: "dnode \<Rightarrow> path \<Rightarrow> dnode option" where
  "nodeAt n [] = Some n"
| "nodeAt n (i # p) = (if i < length (childNodes n) then nodeAt (childNodes n ! i) p else None)"

definition elementAt :: "dnode \<Rightarrow> path \<Rightarrow> dnode option" where
  "elementAt doc p = (case nodeAt doc p of Some n \<Rightarrow> if isElement n then Some n else None | None \<Rightarrow> None)"

text \<open>\<^verbatim>\<open>getAttribute\<close>, \<^verbatim>\<open>id\<close>, \<^verbatim>\<open>className\<close>, and a value that is present and not empty.\<close>

definition getAttribute :: "dnode \<Rightarrow> string \<Rightarrow> string option" where
  "getAttribute e a = map_of (attributes e) a"

definition elementId :: "dnode \<Rightarrow> string" where
  "elementId e = (case getAttribute e ''id'' of None \<Rightarrow> [] | Some v \<Rightarrow> v)"

definition className :: "dnode \<Rightarrow> string" where
  "className e = (case getAttribute e ''class'' of None \<Rightarrow> [] | Some v \<Rightarrow> v)"

definition truthyAttr :: "dnode \<Rightarrow> string \<Rightarrow> string option" where
  "truthyAttr e a = (case getAttribute e a of None \<Rightarrow> None | Some v \<Rightarrow> if v = [] then None else Some v)"

definition tagLower :: "dnode \<Rightarrow> string" where
  "tagLower e = toLowerCase (tagName e)"

text \<open>
  \<^verbatim>\<open>parentElement.children\<close>: the paths of the child elements of the parent, in order;
  \<open>indexOf\<close> as \<^verbatim>\<open>Array.prototype.indexOf\<close> plus one (0 when absent).
\<close>

definition childElements :: "dnode \<Rightarrow> path \<Rightarrow> path list" where
  "childElements doc p =
     (case nodeAt doc p of
        None \<Rightarrow> []
      | Some n \<Rightarrow> map (\<lambda>i. p @ [i]) (filter (\<lambda>i. isElement (childNodes n ! i)) [0 ..< length (childNodes n)]))"

fun indexOf1 :: "'a list \<Rightarrow> 'a \<Rightarrow> nat" where
  "indexOf1 [] x = 0"
| "indexOf1 (y # ys) x = (if y = x then 1 else (case indexOf1 ys x of 0 \<Rightarrow> 0 | Suc n \<Rightarrow> Suc (Suc n)))"

text \<open>
  \<^verbatim>\<open>document.body\<close>: the first child of the \<^verbatim>\<open>html\<close> element that is a \<^verbatim>\<open>body\<close> or a
  \<^verbatim>\<open>frameset\<close> element.
\<close>

definition documentBody :: "dnode \<Rightarrow> path option" where
  "documentBody doc =
     (if tagLower doc = ''html'' then
        List.find (\<lambda>p. case nodeAt doc p of
                          None \<Rightarrow> False
                        | Some n \<Rightarrow> tagLower n = ''body'' \<or> tagLower n = ''frameset'')
          (childElements doc [])
      else None)"

text \<open>
  The browser's query engines on the current document: \<^verbatim>\<open>document.querySelectorAll\<close> and
  \<^verbatim>\<open>document.evaluate\<close> with an ordered snapshot.  Each maps the selector text to the
  matched elements, or throws on text it cannot parse.
\<close>

record browser =
  querySelectorAll :: "string \<Rightarrow> error + path list"
  evaluate :: "string \<Rightarrow> error + path list"

text \<open>The double quote, which the selector templates contain.\<close>

definition dq :: string where
  "dq = [CHR 0x22]"

text \<open>Splitting at white space (\<^verbatim>\<open>split(/\s+/).filter(Boolean)\<close>) and joining.\<close>

fun splitSpaces :: "string \<Rightarrow> string \<Rightarrow> string list" where
  "splitSpaces acc [] = (if acc = [] then [] else [rev acc])"
| "splitSpaces acc (c # cs) =
     (if isSpace c then (if acc = [] then splitSpaces [] cs else rev acc # splitSpaces [] cs)
      else splitSpaces (c # acc) cs)"

text \<open>\<^verbatim>\<open>s.replace(/p/g, r)\<close> for a literal \<open>p\<close> that is not empty and a plain \<open>r\<close>.\<close>

fun replaceAll :: "string \<Rightarrow> string \<Rightarrow> string \<Rightarrow> string" where
  "replaceAll p r [] = []"
| "replaceAll p r (c # cs) =
     (if p \<noteq> [] \<and> prefix p (c # cs) then r @ replaceAll p r (drop (length p) (c # cs))
      else c # replaceAll p r cs)"

section \<open>generateSelector (agent handler)\<close>

text \<open>
  The repository holds two versions of the class StagehandAgentHandler.  The functions
  modelled here and in the next section are those of the version whose generateSelector
  numbers its tiers from ``1) id selector'' to ``8) guaranteed full path''.  The other
  version (lib/handlers/agentHandler.ts) tries the test attributes before the id, compares
  the node that a text XPath matches with the element, works against a time budget, and
  tests the id of the focused element with isLikelyDynamicId.
\<close>

definition isSelectorUnique :: "browser \<Rightarrow> path \<Rightarrow> string \<Rightarrow> bool" where
  "isSelectorUnique br element sel =
     (case querySelectorAll br sel of Inl e \<Rightarrow> False | Inr els \<Rightarrow> els = [element])"

definition isLikelyDynamicId :: "string \<Rightarrow> bool" where
  "isLikelyDynamicId id' =
     (includesStr id' '':''
      \<or> testPrefix (rxLit ''radix-'') id'
      \<or> testFull (rxSeq [rxPlus (Sym isAlpha), rxChar CHR ''-'', rxAtLeast 6 (Sym isHexLower)]) id')"

definition stabiliseIdSelector :: "string \<Rightarrow> string" where
  "stabiliseIdSelector sel =
     (if \<not> prefix ''#'' sel then sel
      else (let raw = replaceAll [CHR 0x5C, CHR '':''] '':'' (drop 1 sel)
            in if prefix ''radix-'' raw then (''[id^='' @ dq @ ''radix-'' @ dq @ '']:visible'')
               else if includesStr raw '':'' then (''[id='' @ dq) @ raw @ (dq @ '']:visible'')
               else sel))"

definition isLikelyDynamicClass :: "string \<Rightarrow> bool" where
  "isLikelyDynamicClass cls =
     (includesStr cls '':''
      \<or> testFull (rxPlus (Sym isLowerAlnum)) cls
      \<or> testFull (rxSeq [rxPlus (Sym isLower),
                          rxAtLeast 2 (Seq (rxChar CHR ''-'') (rxPlus (Sym isLowerAlnum)))]) cls
      \<or> testFull (rxSeq [rxPlus (Sym isLower), rxChar CHR ''-'', rxAtLeast 4 (Sym isAlnum)]) cls
      \<or> testSearch (rxSeq [rxLit ''css-'', rxPlus (Sym isAlnum)]) cls
      \<or> testPrefix (rxSeq [rxOneOf [''ng'', ''vue'', ''jsx''], rxChar CHR ''-'']) cls)"

definition testAttrs :: "string list" where
  "testAttrs = [''data-testid'', ''data-test'', ''data-cy'', ''data-automation-id'', ''data-qa'',
                ''data-test-id'']"

definition ariaAttrs :: "string list" where
  "ariaAttrs = [''aria-label'', ''aria-labelledby'', ''aria-describedby'', ''aria-controls'',
                ''role'']"

definition formAttrs :: "string list" where
  "formAttrs = [''name'', ''placeholder'', ''for'']"

text \<open>
  One loop over attribute names: the selector for each attribute with a value, and the
  first of them that is unique.  \<open>withTag\<close> puts the tag in front, as tiers 3 and 4 do.
\<close>

definition attrSelector :: "bool \<Rightarrow> dnode \<Rightarrow> string \<Rightarrow> string \<Rightarrow> string" where
  "attrSelector withTag element attr v =
     (if withTag then tagLower element else []) @ ''['' @ attr @ (''='' @ dq) @ CSS_escape v @ (dq @ '']'')"

definition attrCandidates :: "bool \<Rightarrow> dnode \<Rightarrow> string list \<Rightarrow> string list" where
  "attrCandidates withTag element names =
     List.map_filter (\<lambda>attr. map_option (attrSelector withTag element attr) (truthyAttr element attr)) names"

definition idTier :: "browser \<Rightarrow> path \<Rightarrow> dnode \<Rightarrow> string option" where
  "idTier br target element =
     (if elementId element \<noteq> [] \<and> \<not> isLikelyDynamicId (elementId element) then
        (let idSel = ''#'' @ CSS_escape (elementId element)
         in if isSelectorUnique br target idSel then Some idSel else None)
      else None)"

definition classTier :: "browser \<Rightarrow> path \<Rightarrow> dnode \<Rightarrow> string option" where
  "classTier br target element =
     (if className element \<noteq> [] then
        (let classes = splitSpaces [] (className element);
             stable = filter (\<lambda>c. \<not> isLikelyDynamicClass c) classes
         in if stable \<noteq> [] then
              (let core = take 3 stable;
                   tag = tagLower element;
                   allSel = tag @ ''.'' @ joinWith ''.'' (map CSS_escape core)
               in if isSelectorUnique br target allSel then Some allSel
                  else List.find (isSelectorUnique br target)
                         (map (\<lambda>cls. tag @ ''.'' @ CSS_escape cls) core))
            else None)
      else None)"

definition textTagOk :: "string \<Rightarrow> bool" where
  "textTagOk tag =
     testFull (Alt (rxOneOf [''button'', ''a'', ''label'', ''li'', ''span'', ''p'', ''div''])
                   (Seq (rxChar CHR ''h'') (Sym (\<lambda>c. c \<in> set ''123456''))))
       (toLowerCase tag)"

definition exactXPath :: "string \<Rightarrow> string \<Rightarrow> string" where
  "exactXPath tag txt = ''//'' @ tag @ (''[text()='' @ dq) @ replaceAll (dq) [CHR 0x5C, CHR 0x22] txt @ (dq @ '']'')"

definition partialXPath :: "string \<Rightarrow> string \<Rightarrow> string" where
  "partialXPath tag txt =
     ''//'' @ tag @ (''[contains(text(),'' @ dq) @ replaceAll (dq) [CHR 0x5C, CHR 0x22] (take 20 txt) @ (dq @ '')]'')"

text \<open>
  The text tier calls \<^verbatim>\<open>document.evaluate\<close> outside any \<^verbatim>\<open>try\<close> of the page function, so
  an XPath error leaves the page function; \<open>Inl\<close> is that exception.
\<close>

definition textTier :: "browser \<Rightarrow> dnode \<Rightarrow> error + string option" where
  "textTier br element =
     (let txt = trim (textContent element)
      in if txt \<noteq> [] \<and> length txt < 50 then
           (let tag = tagLower element
            in if textTagOk tag then
                 (case evaluate br (exactXPath tag txt) of
                    Inl e \<Rightarrow> Inl e
                  | Inr ns \<Rightarrow>
                      if length ns = 1 then Inr (Some (exactXPath tag txt))
                      else (case evaluate br (partialXPath tag txt) of
                              Inl e \<Rightarrow> Inl e
                            | Inr ms \<Rightarrow>
                                if length ms = 1 then Inr (Some (partialXPath tag txt))
                                else Inr None))
               else Inr None)
         else Inr None)"

text \<open>
  Tier 7, the loop that grows a path of tags upwards: \<open>cur\<close> is the current element and
  \<open>path\<close> the segments so far, the segment of \<open>cur\<close> first.
\<close>

definition tagAt :: "dnode \<Rightarrow> path \<Rightarrow> string" where
  "tagAt doc p = (case nodeAt doc p of None \<Rightarrow> [] | Some n \<Rightarrow> tagLower n)"

definition nthChildSegment :: "dnode \<Rightarrow> path \<Rightarrow> string" where
  "nthChildSegment doc cur =
     tagAt doc cur @ '':nth-child('' @ showNat (indexOf1 (childElements doc (butlast cur)) cur) @ '')''"

function cssPathLoop :: "browser \<Rightarrow> dnode \<Rightarrow> path \<Rightarrow> path \<Rightarrow> string list \<Rightarrow> string option" where
  "cssPathLoop br doc target cur path =
     (if Some cur \<noteq> documentBody doc \<and> cur \<noteq> [] then
        (let sel = joinWith '' > '' path
         in if isSelectorUnique br target sel then Some sel
            else (let sibs = childElements doc (butlast cur)
                  in if length sibs > 1 then
                       (let path1 = nthChildSegment doc cur # tl path;
                            nth = joinWith '' > '' path1
                        in if isSelectorUnique br target nth then Some nth
                           else cssPathLoop br doc target (butlast cur)
                                  (tagAt doc (butlast cur) # path1))
                     else cssPathLoop br doc target (butlast cur) (tagAt doc (butlast cur) # path)))
      else None)"
  by pat_completeness auto
termination
  by (relation "measure (\<lambda>(br, doc, target, cur, path). length cur)") auto

declare cssPathLoop.simps [simp del]

text \<open>Tier 8, the full path of \<^verbatim>\<open>nth-child\<close> segments below \<^verbatim>\<open>body\<close>.\<close>

function fullPathLoop :: "dnode \<Rightarrow> path \<Rightarrow> string list \<Rightarrow> string list" where
  "fullPathLoop doc cur segs =
     (if Some cur \<noteq> documentBody doc \<and> cur \<noteq> [] then
        fullPathLoop doc (butlast cur) (nthChildSegment doc cur # segs)
      else segs)"
  by pat_completeness auto
termination
  by (relation "measure (\<lambda>(doc, cur, segs). length cur)") auto

declare fullPathLoop.simps [simp del]

definition guaranteedPath :: "dnode \<Rightarrow> path \<Rightarrow> string" where
  "guaranteedPath doc target =
     stabiliseIdSelector (joinWith '' > '' (''body'' # fullPathLoop doc target []))"

text \<open>
  The function evaluated in the page, for the element that \<^verbatim>\<open>elementFromPoint\<close> gave
  (\<open>None\<close> when there is none), and generateSelector itself, which turns any exception
  into \<^verbatim>\<open>null\<close>.
\<close>

definition orElse :: "'a option \<Rightarrow> 'a option \<Rightarrow> 'a option" where
  "orElse a b = (case a of None \<Rightarrow> b | Some x \<Rightarrow> Some x)"

definition selectorInPage :: "browser \<Rightarrow> dnode \<Rightarrow> path option \<Rightarrow> error + string option" where
  "selectorInPage br doc point =
     (case point of
        None \<Rightarrow> Inr None
      | Some target \<Rightarrow>
          (case elementAt doc target of
             None \<Rightarrow> Inr None
           | Some element \<Rightarrow>
               (case orElse (idTier br target element)
                    (orElse (List.find (isSelectorUnique br target) (attrCandidates False element testAttrs))
                    (orElse (List.find (isSelectorUnique br target) (attrCandidates True element ariaAttrs))
                    (orElse (List.find (isSelectorUnique br target) (attrCandidates True element formAttrs))
                            (classTier br target element)))) of
                  Some sel \<Rightarrow> Inr (Some sel)
                | None \<Rightarrow>
                    (case textTier br element of
                       Inl e \<Rightarrow> Inl e
                     | Inr (Some sel) \<Rightarrow> Inr (Some sel)
                     | Inr None \<Rightarrow>
                         (case cssPathLoop br doc target target [tagLower element] of
                            Some sel \<Rightarrow> Inr (Some sel)
                          | None \<Rightarrow> Inr (Some (guaranteedPath doc target)))))))"

definition generateSelector :: "browser \<Rightarrow> dnode \<Rightarrow> path option \<Rightarrow> string option" where
  "generateSelector br doc point =
     (case selectorInPage br doc point of Inl e \<Rightarrow> None | Inr r \<Rightarrow> r)"

section \<open>getActiveElementSelector (agent handler)\<close>

text \<open>
  The selector of the focused element, \<^verbatim>\<open>document.activeElement\<close> (\<open>None\<close> when there is
  none).  Every step returns the first selector it can build; none of them queries the
  document.
\<close>

definition rawAttrSelector :: "string \<Rightarrow> string \<Rightarrow> string \<Rightarrow> string" where
  "rawAttrSelector tag attr v = tag @ ''['' @ attr @ ''='' @ dq @ v @ dq @ '']''"

definition semanticAttributes :: "string list" where
  "semanticAttributes =
     [''aria-label'', ''aria-describedby'', ''aria-controls'', ''aria-labelledby'',
      ''aria-haspopup'', ''aria-selected'', ''aria-expanded'', ''aria-checked'', ''title'',
      ''placeholder'', ''for'', ''alt'', ''name'']"

definition isDynamicClass :: "string \<Rightarrow> bool" where
  "isDynamicClass cn =
     (testFull (rxSeq [rxLit ''css-'', rxPlus (Sym isLowerAlnum)]) cn
      \<or> testFull (rxSeq [rxOneOf [''sc'', ''e''], rxChar CHR ''-'', rxPlus (Sym isLowerAlnum)]) cn
      \<or> (testFull (rxSeq [rxPlus (Sym isLower), rxChar CHR '':'', Star rxDot]) cn \<and> includesStr cn '':'')
      \<or> testFull (rxSeq [rxLit ''_ng'', rxOneOf [''content'', ''host''], rxChar CHR ''-'',
                          rxPlus (Sym (\<lambda>c. isLowerAlnum c \<or> c = CHR ''-''))]) cn
      \<or> testFull (rxSeq [rxLit ''v-'', rxPlus (Sym isLowerAlnum)]) cn
      \<or> testFull (rxSeq [rxPlus rxDot, rxLit ''--'', rxPlus (Sym isAlnum)]) cn
      \<or> testFull (rxSeq [rxPlus rxDot, Sym (\<lambda>c. c = CHR ''_'' \<or> c = CHR ''-''),
                          rxAtLeast 4 (Sym isHexLower)]) cn)"

text \<open>The framework patterns, in the order of \<^verbatim>\<open>Object.entries\<close>.\<close>

definition frameworkPatterns :: "(string \<Rightarrow> bool) list" where
  "frameworkPatterns =
     [testFull (rxSeq [rxLit ''Mui'', Sym isUpper, rxPlus (Sym isAlpha), rxChar CHR ''-'',
                       rxPlus (Sym isLower)]),
      testFull (rxSeq [rxLit ''ant-'', rxPlus (Sym isLower), rxOpt (rxChar CHR ''-''), Star (Sym isLower)]),
      testFull (rxSeq [rxLit ''chakra-'', rxPlus (Sym isLower), rxOpt (rxChar CHR ''-''),
                       Star (Sym isLower)]),
      testFull (rxSeq [rxOneOf [''btn'', ''form'', ''nav'', ''card'', ''modal'', ''container'', ''row'',
                                ''col''],
                       Star (Seq (rxChar CHR ''-'') (rxPlus (Sym isLower)))]),
      testPrefix (rxOneOf [''rb-'', ''react-bootstrap-'']),
      testPrefix (rxOneOf [''tw-'', ''tailwind-''])]"

definition activeClassStep :: "dnode \<Rightarrow> string option" where
  "activeClassStep element =
     (if className element \<noteq> [] \<and> trim (className element) \<noteq> [] then
        (let classNames = splitSpaces [] (trim (className element));
             tag = tagLower element
         in case List.find (\<lambda>pattern. filter pattern classNames \<noteq> []) frameworkPatterns of
              Some pattern \<Rightarrow>
                Some (tag @ ''[class*='' @ dq @ hd (filter pattern classNames) @ dq @ '']'')
            | None \<Rightarrow>
                (let stableClasses = filter (\<lambda>cn. \<not> isDynamicClass cn) classNames
                 in if stableClasses \<noteq> [] then Some (tag @ ''.'' @ joinWith ''.'' stableClasses)
                    else None))
      else None)"

definition activeTextStep :: "dnode \<Rightarrow> string option" where
  "activeTextStep element =
     (let txt = trim (textContent element);
          tag = tagLower element
      in if txt \<noteq> [] \<and> length txt < 50
            \<and> tag \<in> set [''button'', ''a'', ''h1'', ''h2'', ''h3'', ''h4'', ''h5'', ''h6''] then
           (if length txt < 20 then Some (''//'' @ tag @ ''[text()='' @ dq @ txt @ dq @ '']'')
            else Some (''//'' @ tag @ ''[contains(text(), '' @ dq @ take 20 txt @ dq @ '')]''))
         else None)"

definition activeRoleStep :: "dnode \<Rightarrow> string option" where
  "activeRoleStep element =
     (case truthyAttr element ''role'' of
        None \<Rightarrow> None
      | Some r \<Rightarrow>
          if r \<notin> set [''button'', ''link'', ''presentation'', ''none'']
          then Some (''[role='' @ dq @ r @ dq @ '']'') else None)"

definition getActiveElementSelector :: "dnode \<Rightarrow> path option \<Rightarrow> string option" where
  "getActiveElementSelector doc active =
     (case active of
        None \<Rightarrow> Some ''body''
      | Some p \<Rightarrow>
          (case elementAt doc p of
             None \<Rightarrow> Some ''body''
           | Some element \<Rightarrow>
               if Some p = documentBody doc then Some ''body''
               else
                 (case List.map_filter (\<lambda>a. map_option (rawAttrSelector [] a) (truthyAttr element a))
                         [''data-testid'', ''data-cy'', ''data-test'', ''data-automation-id''] of
                    sel # rest \<Rightarrow> Some sel
                  | [] \<Rightarrow>
                      if elementId element \<noteq> [] then Some (''#'' @ elementId element)
                      else
                        (case List.map_filter
                                (\<lambda>a. map_option (rawAttrSelector (tagLower element) a) (truthyAttr element a))
                                semanticAttributes of
                           sel # rest \<Rightarrow> Some sel
                         | [] \<Rightarrow>
                             orElse (activeRoleStep element)
                               (orElse (activeClassStep element)
                                 (orElse (activeTextStep element)
                                         (Some (tagLower element))))))))"

section \<open>executeAction and recordAction (agent handler)\<close>

text \<open>
  The action variants, with the fields that executeAction and recordAction read (the
  \<open>button\<close> of a click or double click is absent or a string).  \<open>Other\<close> is an action whose
  \<open>type\<close> is none of the known ones.  Coordinates and deltas are integers.
\<close>

datatype AgentAction =
    Click int int "string option"
  | DoubleClick int int "string option"
  | DoubleClickCompat int int "string option"
  | TypeText string
  | Keypress "string list"
  | Scroll int int
  | Drag "(int \<times> int) list"
  | Move int int
  | Wait
  | Screenshot
  | Function string jsval
  | Key string
  | Other string

fun actionType :: "AgentAction \<Rightarrow> string" where
  "actionType (Click x y b) = ''click''"
| "actionType (DoubleClick x y b) = ''double_click''"
| "actionType (DoubleClickCompat x y b) = ''doubleClick''"
| "actionType (TypeText t) = ''type''"
| "actionType (Keypress ks) = ''keypress''"
| "actionType (Scroll dx dy) = ''scroll''"
| "actionType (Drag pts) = ''drag''"
| "actionType (Move x y) = ''move''"
| "actionType Wait = ''wait''"
| "actionType Screenshot = ''screenshot''"
| "actionType (Function n args) = ''function''"
| "actionType (Key t) = ''key''"
| "actionType (Other t) = t"

record ActionExecutionResult =
  success :: bool
  error_msg :: "string option"

record RecordedAction =
  action :: string
  rec_success :: bool
  selector :: "string option"
  details :: "(string \<times> jsval) list"

text \<open>
  What the page and the driver do during one call.  \<open>beforeScreenshot\<close> and
  \<open>afterScreenshot\<close> are the two calls of \<^verbatim>\<open>page.screenshot\<close> (\<open>Some m\<close>: the call rejects
  with message \<open>m\<close>); \<open>driverError\<close> is the message of the first driver call of the
  dispatched branch that rejects, if one does; \<open>selectorAt\<close> is generateSelector at a
  point and \<open>activeSelector\<close> is getActiveElementSelector, neither of which throws;
  \<open>cursorPosition\<close> is the page evaluation that recordAction makes for a scroll.
  Timestamps, log lines and the creation of the screenshot directory are left out.
\<close>

record exec_env =
  beforeScreenshot :: "string option"
  driverError :: "string option"
  afterScreenshot :: "string option"
  selectorAt :: "int \<Rightarrow> int \<Rightarrow> string option"
  activeSelector :: "string option"
  cursorPosition :: "string + (int \<times> int)"

definition succeeded :: ActionExecutionResult where
  "succeeded = \<lparr>success = True, error_msg = None\<rparr>"

definition failed :: "string \<Rightarrow> ActionExecutionResult" where
  "failed m = \<lparr>success = False, error_msg = Some m\<rparr>"

text \<open>A branch whose driver calls are inside the \<^verbatim>\<open>try\<close>: the \<^verbatim>\<open>catch\<close> makes the result.\<close>

definition driven :: "exec_env \<Rightarrow> ActionExecutionResult" where
  "driven env = (case driverError env of None \<Rightarrow> succeeded | Some m \<Rightarrow> failed m)"

definition hasUrl :: "jsval \<Rightarrow> bool" where
  "hasUrl args = (case args of JObj kvs \<Rightarrow> map_of kvs ''url'' \<noteq> None | _ \<Rightarrow> False)"

text \<open>
  The \<^verbatim>\<open>switch\<close> with its \<^verbatim>\<open>catch\<close>: the result and the selector that the branch set.
\<close>

fun dispatch :: "exec_env \<Rightarrow> AgentAction \<Rightarrow> ActionExecutionResult \<times> string option" where
  "dispatch env (Click x y b) = (driven env, selectorAt env x y)"
| "dispatch env (DoubleClick x y b) = (driven env, selectorAt env x y)"
| "dispatch env (DoubleClickCompat x y b) = (driven env, selectorAt env x y)"
| "dispatch env (TypeText t) = (driven env, None)"
| "dispatch env (Keypress ks) = (if ks = [] then succeeded else driven env, None)"
| "dispatch env (Scroll dx dy) = (driven env, None)"
| "dispatch env (Drag pts) = (if length pts \<ge> 2 then driven env else succeeded, None)"
| "dispatch env (Move x y) = (driven env, None)"
| "dispatch env Wait = (succeeded, None)"
| "dispatch env Screenshot = (succeeded, None)"
| "dispatch env (Function n args) =
     (if (n = ''goto'' \<and> hasUrl args) \<or> n = ''back'' \<or> n = ''forward'' \<or> n = ''reload''
      then driven env
      else failed (''Unsupported function: '' @ n), None)"
| "dispatch env (Key t) = (driven env, None)"
| "dispatch env (Other t) = (failed (''Unsupported action type: '' @ t), None)"

definition point :: "int \<times> int \<Rightarrow> jsval" where
  "point p = JObj [(''x'', JNum (fst p)), (''y'', JNum (snd p))]"

definition optStr :: "string option \<Rightarrow> jsval" where
  "optStr s = (case s of None \<Rightarrow> JNull | Some t \<Rightarrow> JStr t)"

text \<open>
  recordAction: the entry for the action, or \<open>None\<close> when nothing is pushed (a screenshot
  action, or an exception inside the \<^verbatim>\<open>try\<close>, which is caught and logged).
\<close>

fun recordedEntry ::
  "exec_env \<Rightarrow> AgentAction \<Rightarrow> ActionExecutionResult \<Rightarrow> string option \<Rightarrow> RecordedAction option" where
  "recordedEntry env (Click x y b) result sel =
     Some \<lparr>action = ''click'', rec_success = success result, selector = sel,
           details = [(''button'', JStr (case b of None \<Rightarrow> ''left'' | Some v \<Rightarrow> v)),
                      (''x'', JNum x), (''y'', JNum y)]\<rparr>"
| "recordedEntry env (DoubleClick x y b) result sel =
     Some \<lparr>action = ''double_click'', rec_success = success result, selector = sel,
           details = [(''button'', JStr (case b of None \<Rightarrow> ''left'' | Some v \<Rightarrow> v)),
                      (''x'', JNum x), (''y'', JNum y)]\<rparr>"
| "recordedEntry env (DoubleClickCompat x y b) result sel =
     Some \<lparr>action = ''doubleClick'', rec_success = success result, selector = sel,
           details = [(''button'', JStr (case b of None \<Rightarrow> ''left'' | Some v \<Rightarrow> v)),
                      (''x'', JNum x), (''y'', JNum y)]\<rparr>"
| "recordedEntry env (TypeText t) result sel =
     Some \<lparr>action = ''type'', rec_success = success result, selector = activeSelector env,
           details = [(''text'', JStr t)]\<rparr>"
| "recordedEntry env (Keypress ks) result sel =
     Some \<lparr>action = ''keypress'', rec_success = success result, selector = activeSelector env,
           details = [(''keys'', JArr (map JStr ks))]\<rparr>"
| "recordedEntry env (Key t) result sel =
     Some \<lparr>action = ''keypress'', rec_success = success result, selector = activeSelector env,
           details = [(''keys'', JArr [JStr t])]\<rparr>"
| "recordedEntry env (Scroll dx dy) result sel =
     (case cursorPosition env of
        Inl m \<Rightarrow> None
      | Inr (cx, cy) \<Rightarrow>
          Some \<lparr>action = ''scrollElement'', rec_success = success result,
                selector = selectorAt env cx cy,
                details = [(''deltaX'', JNum dx), (''deltaY'', JNum dy), (''x'', JNum cx),
                           (''y'', JNum cy)]\<rparr>)"
| "recordedEntry env (Drag pts) result sel =
     (if length pts \<ge> 2 then
        Some \<lparr>action = ''drag'', rec_success = success result,
              selector = selectorAt env (fst (hd pts)) (snd (hd pts)),
              details = [(''start'', point (hd pts)), (''end'', point (last pts)),
                         (''path'', JArr (map point pts)),
                         (''targetSelector'',
                            optStr (selectorAt env (fst (last pts)) (snd (last pts))))]\<rparr>
      else Some \<lparr>action = ''drag'', rec_success = success result, selector = None, details = []\<rparr>)"
| "recordedEntry env (Move x y) result sel =
     Some \<lparr>action = ''hover'', rec_success = success result, selector = selectorAt env x y,
           details = [(''x'', JNum x), (''y'', JNum y)]\<rparr>"
| "recordedEntry env Wait result sel =
     Some \<lparr>action = ''wait'', rec_success = success result, selector = None,
           details = [(''duration'', JNum 1000)]\<rparr>"
| "recordedEntry env (Function n args) result sel =
     (if n = ''goto'' \<and> hasUrl args then
        Some \<lparr>action = ''goto'', rec_success = success result, selector = None,
              details = [(''url'', getProp args ''url'')]\<rparr>
      else if n = ''back'' then
        Some \<lparr>action = ''goBack'', rec_success = success result, selector = None, details = []\<rparr>
      else if n = ''forward'' then
        Some \<lparr>action = ''goForward'', rec_success = success result, selector = None, details = []\<rparr>
      else if n = ''reload'' then
        Some \<lparr>action = ''reload'', rec_success = success result, selector = None, details = []\<rparr>
      else Some \<lparr>action = ''function'', rec_success = success result, selector = None, details = []\<rparr>)"
| "recordedEntry env Screenshot result sel = None"
| "recordedEntry env (Other t) result sel =
     Some \<lparr>action = t, rec_success = success result, selector = None, details = []\<rparr>"

definition recordAction ::
  "exec_env \<Rightarrow> AgentAction \<Rightarrow> ActionExecutionResult \<Rightarrow> string option \<Rightarrow> RecordedAction list
     \<Rightarrow> RecordedAction list" where
  "recordAction env a result sel recordedActions =
     (case recordedEntry env a result sel of
        None \<Rightarrow> recordedActions
      | Some entry \<Rightarrow> recordedActions @ [entry])"

text \<open>
  executeAction.  The screenshot before the action is awaited ahead of the \<^verbatim>\<open>try\<close>, and
  the one after it inside the \<^verbatim>\<open>finally\<close>; when either rejects, the promise of
  executeAction rejects (\<open>Inl\<close>) and the statements after it do not run.  The result is the
  outcome together with the list of recorded actions and whether recordAction was called.
\<close>

record exec_outcome =
  outcome :: "error + ActionExecutionResult"
  recorded :: "RecordedAction list"
  dispatched :: bool
  recorderCalled :: bool

definition executeAction :: "exec_env \<Rightarrow> AgentAction \<Rightarrow> RecordedAction list \<Rightarrow> exec_outcome" where
  "executeAction env a recordedActions =
     (case beforeScreenshot env of
        Some m \<Rightarrow>
          \<lparr>outcome = Inl (Thrown m), recorded = recordedActions, dispatched = False,
           recorderCalled = False\<rparr>
      | None \<Rightarrow>
          (let (result, sel) = dispatch env a
           in case afterScreenshot env of
                Some m \<Rightarrow>
                  \<lparr>outcome = Inl (Thrown m), recorded = recordedActions, dispatched = True,
                   recorderCalled = False\<rparr>
              | None \<Rightarrow>
                  \<lparr>outcome = Inr result,
                   recorded = recordAction env a result sel recordedActions,
                   dispatched = True, recorderCalled = True\<rparr>))"

section \<open>Vocabulary of the properties\<close>

text \<open>A value is an object when it is neither a primitive nor nullish.\<close>

definition isObject :: "jsval \<Rightarrow> bool" where
  "isObject v = (case v of JObj kvs \<Rightarrow> True | JArr xs \<Rightarrow> True | _ \<Rightarrow> False)"

text \<open>
  What one model call of \<open>act\<close> came back with: no tool call at all (the list is absent or
  empty), or a first tool call.
\<close>

definition noToolCalls :: "error + LLMResponse \<Rightarrow> bool" where
  "noToolCalls r = (case r of Inl e \<Rightarrow> False | Inr raw \<Rightarrow> toolCallsOf raw = None \<or> toolCallsOf raw = Some [])"

definition firstToolCall :: "error + LLMResponse \<Rightarrow> tool_call option" where
  "firstToolCall r = (case r of Inl e \<Rightarrow> None | Inr raw \<Rightarrow>
      (case toolCallsOf raw of Some (tc # rest) \<Rightarrow> Some tc | _ \<Rightarrow> None))"

text \<open>A client that answers without tool calls twice and with one tool call from then on.\<close>

definition client3 :: "nat \<Rightarrow> error + LLMResponse" where
  "client3 n = (if n < 2 then Inr (LLMResponse None (Some [Choice (Some (Message (Some [])))]))
                else Inr (LLMResponse None (Some [Choice (Some (Message (Some [ToolCall ''doAction'' ''{}''])))])))"

text \<open>The three stages of the literal example: usage 10/5 each, 100 ms each.\<close>

definition mockStage :: "nat \<Rightarrow> error + LLMParsedResponse" where
  "mockStage n = Inr (LLMParsedResponse (JObj [(''completed'', JBool True), (''progress'', JStr ''done'')])
     (Some \<lparr>prompt_tokens = 10, completion_tokens = 5, total_tokens = 15\<rparr>))"

definition mockClock :: clock_readings where
  "mockClock = \<lparr>extractStartTime = 0, extractEndTime = 100, refineStartTime = 100,
     refineEndTime = 200, metadataStartTime = 200, metadataEndTime = 300\<rparr>"

section \<open>Vocabulary of the tree properties\<close>

text \<open>All nodes of a tree, at any depth, and the nodes the claims exclude.\<close>

fun subtrees :: "AccessibilityTree \<Rightarrow> AccessibilityTree list" where
  "subtrees (Node p cs) =
     Node p cs # (case cs of None \<Rightarrow> [] | Some ts \<Rightarrow> concat (map subtrees ts))"

definition childless :: "AccessibilityTree \<Rightarrow> bool" where
  "childless t = (children t = None \<or> children t = Some [])"

definition emptyStructural :: "AccessibilityTree \<Rightarrow> bool" where
  "emptyStructural t = (isStructural (role (props t)) \<and> childless t)"

text \<open>Flat nodes for the examples: an id, a role, a name, a parent and child ids.\<close>

definition flatNode ::
  "string \<Rightarrow> string \<Rightarrow> string option \<Rightarrow> string option \<Rightarrow> string list option \<Rightarrow> AccessibilityNode" where
  "flatNode i r n p c =
     \<lparr>role = r, nodeId = i, name = n, description = None, nodeValue = None,
      backendDOMNodeId = None, xpath = None, parentId = p, childIds = c\<rparr>"

definition leafTree :: "string \<Rightarrow> string \<Rightarrow> string option \<Rightarrow> AccessibilityTree list option \<Rightarrow> AccessibilityTree" where
  "leafTree i r n cs =
     Node \<lparr>role = r, nodeId = i, name = n, description = None, nodeValue = None,
           backendDOMNodeId = None, xpath = None\<rparr> cs"

text \<open>A button whose only child is a named generic leaf.\<close>

definition buttonOverGeneric :: "AccessibilityNode list" where
  "buttonOverGeneric =
     [flatNode ''1'' ''button'' None None (Some [''2'']),
      flatNode ''2'' ''generic'' (Some ''foo'') (Some ''1'') None]"


text \<open>A generic root whose only child is a button over a named generic leaf.\<close>

definition genericOverBareButton :: "AccessibilityNode list" where
  "genericOverBareButton =
     [flatNode ''1'' ''generic'' None None (Some [''2'']),
      flatNode ''2'' ''button'' (Some ''foo'') (Some ''1'') (Some [''3'']),
      flatNode ''3'' ''generic'' (Some ''g'') (Some ''2'') None]"






text \<open>
  No stored node, and no node of a tree at any depth, has an id that parses (in base 10,
  as the first pass parses it) to a negative number.
\<close>

definition nonNegativeIds :: "nodeMap \<Rightarrow> bool" where
  "nonNegativeIds nm =
     (\<forall>k node. nm k = Some node \<longrightarrow> nodeId node = k \<and> \<not> isNegative (parseInt k (Some 10)))"

definition nonNegativeTree :: "AccessibilityTree \<Rightarrow> bool" where
  "nonNegativeTree t =
     (\<forall>s \<in> set (subtrees t). \<not> isNegative (parseInt (nodeId (props s)) (Some 10)))"


text \<open>
  Invariants of the store: its keys are among \<open>ks\<close>; no object has children yet; every
  reference in a \<open>children\<close> array is a key of the store.
\<close>

definition keysIn :: "string list \<Rightarrow> nodeMap \<Rightarrow> bool" where
  "keysIn ks nm = (\<forall>k. nm k \<noteq> None \<longrightarrow> k \<in> set ks)"

definition unlinked :: "nodeMap \<Rightarrow> bool" where
  "unlinked nm = (\<forall>k node. nm k = Some node \<longrightarrow> childRefs node = None)"

definition closedRefs :: "nodeMap \<Rightarrow> bool" where
  "closedRefs nm =
     (\<forall>k node refs c. nm k = Some node \<and> childRefs node = Some refs \<and> c \<in> set refs
        \<longrightarrow> nm c \<noteq> None)"

section \<open>Vocabulary of the selector properties\<close>

text \<open>
  Re-querying a returned selector: an XPath (it starts with two slashes) goes to
  \<^verbatim>\<open>document.evaluate\<close>, anything else to \<^verbatim>\<open>querySelectorAll\<close>.
\<close>

definition requery :: "browser \<Rightarrow> string \<Rightarrow> error + path list" where
  "requery br sel = (if prefix ''//'' sel then evaluate br sel else querySelectorAll br sel)"

text \<open>
  A browser given by the table of its answers on one document; a selector that is not in
  the table matches nothing.
\<close>

definition tableBrowser :: "(string \<times> path list) list \<Rightarrow> (string \<times> path list) list \<Rightarrow> browser" where
  "tableBrowser css xp =
     \<lparr>querySelectorAll = (\<lambda>s. case map_of css s of None \<Rightarrow> Inr [] | Some r \<Rightarrow> Inr r),
      evaluate = (\<lambda>s. case map_of xp s of None \<Rightarrow> Inr [] | Some r \<Rightarrow> Inr r)\<rparr>"

text \<open>
  A page whose body holds one \<^verbatim>\<open>div\<close> with a plain id and a test attribute, and the
  answers of the browser on it.
\<close>

definition testIdPage :: dnode where
  "testIdPage =
     Element ''HTML'' []
       [Element ''BODY'' []
          [Element ''DIV'' [(''id'', ''main''), (''data-testid'', ''submit'')] []]]"

definition testIdBrowser :: browser where
  "testIdBrowser =
     tableBrowser
       [(''#main'', [[0, 0]]),
        (''[data-testid='' @ dq @ ''submit'' @ dq @ '']'', [[0, 0]]),
        (''div'', [[0, 0]]),
        (''body'', [[0]]),
        (''html'', [[]])] []"

text \<open>
  A page whose \<^verbatim>\<open>div\<close> has no id, an empty \<^verbatim>\<open>data-test\<close> and a \<^verbatim>\<open>data-cy\<close> attribute,
  and the answers of the browser on it.
\<close>

definition testOnlyPage :: dnode where
  "testOnlyPage =
     Element ''HTML'' []
       [Element ''BODY'' []
          [Element ''DIV'' [(''data-test'', []), (''data-cy'', ''submit'')] []]]"

definition testOnlyBrowser :: browser where
  "testOnlyBrowser =
     tableBrowser
       [(''[data-cy='' @ dq @ ''submit'' @ dq @ '']'', [[0, 0]]),
        (''[data-test='' @ dq @ dq @ '']'', [[0, 0]]),
        (''div'', [[0, 0]]),
        (''body'', [[0]]),
        (''html'', [[]])] []"

text \<open>
  A page with two \<^verbatim>\<open>div\<close>s: the first holds the text \<^verbatim>\<open>Hello\<close> itself, the second holds
  it inside a \<^verbatim>\<open>span\<close>.  Only the first has a text node child equal to \<^verbatim>\<open>Hello\<close>.
\<close>

definition helloPage :: dnode where
  "helloPage =
     Element ''HTML'' []
       [Element ''BODY'' []
          [Element ''DIV'' [] [Text ''Hello''],
           Element ''DIV'' [] [Element ''SPAN'' [] [Text ''Hello'']]]]"

definition helloXPath :: string where
  "helloXPath = ''//div[text()='' @ dq @ ''Hello'' @ dq @ '']''"

definition helloBrowser :: browser where
  "helloBrowser =
     tableBrowser
       [(''div'', [[0, 0], [0, 1]]),
        (''span'', [[0, 1, 0]]),
        (''body'', [[0]]),
        (''html'', [[]]),
        (''div:nth-child(1)'', [[0, 0]]),
        (''div:nth-child(2)'', [[0, 1]]),
        (''body > div:nth-child(1)'', [[0, 0]]),
        (''body > div:nth-child(2)'', [[0, 1]])]
       [(helloXPath, [[0, 0]]),
        (''//span[text()='' @ dq @ ''Hello'' @ dq @ '']'', [[0, 1, 0]])]"

text \<open>A page whose focused element is an input with a generated id.\<close>

definition radixPage :: dnode where
  "radixPage =
     Element ''HTML'' []
       [Element ''BODY'' []
          [Element ''INPUT'' [(''id'', ''radix-:r3:''), (''type'', ''text'')] []]]"

text \<open>The target elements of the example pages.\<close>

definition mainDiv :: dnode where
  "mainDiv = Element ''DIV'' [(''id'', ''main''), (''data-testid'', ''submit'')] []"

definition testDiv :: dnode where
  "testDiv = Element ''DIV'' [(''data-test'', []), (''data-cy'', ''submit'')] []"

definition radixInput :: dnode where
  "radixInput = Element ''INPUT'' [(''id'', ''radix-:r3:''), (''type'', ''text'')] []"

text \<open>A selector that does not start with a hash sign is no id selector.\<close>

definition hashFree :: "string \<Rightarrow> bool" where
  "hashFree s = (\<not> prefix ''#'' s)"

section \<open>Vocabulary of the executor properties\<close>

text \<open>A page on which every driver call works, and the same page with a failing camera.\<close>

definition calmEnv :: exec_env where
  "calmEnv =
     \<lparr>beforeScreenshot = None, driverError = None, afterScreenshot = None,
      selectorAt = (\<lambda>x y. Some ''#main''), activeSelector = Some ''body'',
      cursorPosition = Inr (0, 0)\<rparr>"

definition noCameraEnv :: exec_env where
  "noCameraEnv = calmEnv\<lparr>beforeScreenshot := Some ''Target closed''\<rparr>"

definition lateCameraEnv :: exec_env where
  "lateCameraEnv = calmEnv\<lparr>afterScreenshot := Some ''Target closed''\<rparr>"

definition brokenDriverEnv :: exec_env where
  "brokenDriverEnv = calmEnv\<lparr>driverError := Some ''Timeout''\<rparr>"

section \<open>The matcher decides the language\<close>

lemma nullable_lang: "nullable r \<longleftrightarrow> [] \<in> lang r"
  by (induction r) (auto intro: starL.empty)

lemma starL_Cons:
  "c # s \<in> starL L \<longleftrightarrow> (\<exists>u v. s = u @ v \<and> c # u \<in> L \<and> v \<in> starL L)"
proof
  assume "c # s \<in> starL L"
  then show "\<exists>u v. s = u @ v \<and> c # u \<in> L \<and> v \<in> starL L"
  proof (induction "c # s" arbitrary: s rule: starL.induct)
    case (more u v)
    show ?case
    proof (cases u)
      case Nil
      with more show ?thesis by simp
    next
      case (Cons d u')
      with more.hyps(1,2,4) show ?thesis by auto
    qed
  qed
next
  assume "\<exists>u v. s = u @ v \<and> c # u \<in> L \<and> v \<in> starL L"
  then obtain u v where "s = u @ v" "c # u \<in> L" "v \<in> starL L" by blast
  then show "c # s \<in> starL L" using starL.more [of "c # u" L v] by simp
qed

lemma deriv_lang: "s \<in> lang (deriv c r) \<longleftrightarrow> c # s \<in> lang r"
proof (induction r arbitrary: s)
  case (Seq r1 r2)
  show ?case
  proof
    assume "s \<in> lang (deriv c (Seq r1 r2))"
    then consider (left) u v where "s = u @ v" "u \<in> lang (deriv c r1)" "v \<in> lang r2"
      | (right) "nullable r1" "s \<in> lang (deriv c r2)"
      by (auto split: if_splits)
    then show "c # s \<in> lang (Seq r1 r2)"
    proof cases
      case left
      with Seq.IH(1) have "c # u \<in> lang r1" by simp
      with left show ?thesis by (auto intro: exI [of _ "c # u"])
    next
      case right
      with Seq.IH(2) have "c # s \<in> lang r2" "[] \<in> lang r1" by (simp_all add: nullable_lang)
      then show ?thesis by (auto intro: exI [of _ "[]"])
    qed
  next
    assume "c # s \<in> lang (Seq r1 r2)"
    then obtain u v where uv: "c # s = u @ v" "u \<in> lang r1" "v \<in> lang r2" by auto
    show "s \<in> lang (deriv c (Seq r1 r2))"
    proof (cases u)
      case Nil
      with uv Seq.IH(2) have "nullable r1" "s \<in> lang (deriv c r2)"
        by (simp_all add: nullable_lang)
      then show ?thesis by simp
    next
      case (Cons d u')
      with uv Seq.IH(1) have "u' \<in> lang (deriv c r1)" "s = u' @ v" by simp_all
      with uv(3) show ?thesis by auto
    qed
  qed
next
  case (Star r)
  then show ?case by (auto simp: starL_Cons)
qed auto

lemma matches_lang: "matches r s \<longleftrightarrow> s \<in> lang r"
  by (induction s arbitrary: r) (simp_all add: nullable_lang deriv_lang)

section \<open>Properties of the model-call pipeline\<close>

subsection \<open>Searching and replacing\<close>

lemma splitFirst_Some: "splitFirst p s = Some (a, b) \<Longrightarrow> s = a @ p @ b"
proof (induction s arbitrary: a b)
  case Nil
  then show ?case by (simp split: if_splits)
next
  case (Cons c cs)
  show ?case
  proof (cases "prefix p (c # cs)")
    case True
    with Cons.prems have "a = []" "b = drop (length p) (c # cs)" by simp_all
    moreover from True obtain r where "c # cs = p @ r" by (auto simp: prefix_def)
    ultimately show ?thesis by simp
  next
    case False
    with Cons.prems obtain a' where "splitFirst p cs = Some (a', b)" "a = c # a'"
      by (auto split: option.splits)
    with Cons.IH show ?thesis by simp
  qed
qed

lemma splitFirst_least:
  "splitFirst p s = Some (a, b) \<Longrightarrow> s = a' @ p @ b' \<Longrightarrow> length a \<le> length a'"
proof (induction s arbitrary: a b a')
  case Nil
  then show ?case by (simp split: if_splits)
next
  case (Cons c cs)
  show ?case
  proof (cases "prefix p (c # cs)")
    case True
    with Cons.prems(1) have "a = []" by simp
    then show ?thesis by simp
  next
    case False
    with Cons.prems(1) obtain a0 where a0: "splitFirst p cs = Some (a0, b)" "a = c # a0"
      by (auto split: option.splits)
    from False Cons.prems(2) have "a' \<noteq> []" by (auto simp: prefix_def)
    then obtain a1 where a1: "a' = c # a1" "cs = a1 @ p @ b'"
      using Cons.prems(2) by (cases a') auto
    from Cons.IH [OF a0(1) a1(2)] a0(2) a1(1) show ?thesis by simp
  qed
qed

lemma splitFirst_None: "splitFirst p s = None \<longleftrightarrow> \<not> sublist p s"
proof (induction s)
  case Nil
  then show ?case by auto
next
  case (Cons c cs)
  then show ?case by (auto simp: sublist_Cons_right)
qed

lemma getSubstitution_plain:
  "CHR ''$'' \<notin> set v \<Longrightarrow> getSubstitution m pre post v = v"
  by (induction m pre post v rule: getSubstitution.induct) auto

lemma fillInVariables_append:
  "fillInVariables t (vs @ ws) = fillInVariables (fillInVariables t vs) ws"
  by (induction t vs rule: fillInVariables.induct) auto

text \<open>
  What one variable does to the text.  When its placeholder is outside the modelled range
  or does not occur, the text is unchanged.  Otherwise the text splits at the first
  occurrence into \<open>pre\<close>, the placeholder and \<open>post\<close>; only that occurrence is replaced, and
  \<open>post\<close> (with every later occurrence) is kept.  What is put in is the value with the
  replacement patterns of \<^verbatim>\<open>String.prototype.replace\<close> expanded, which is the value itself
  when it contains no dollar sign.
\<close>

lemma fillInVariables_first_only:
  "(placeholder key = None \<longrightarrow>
      fillInVariables t ((key, v) # variables) = fillInVariables t variables)
   \<and> (placeholder key = Some p \<and> \<not> sublist p t \<longrightarrow>
        fillInVariables t ((key, v) # variables) = fillInVariables t variables)
   \<and> (placeholder key = Some p \<and> splitFirst p t = Some (pre, post) \<longrightarrow>
        t = pre @ p @ post
        \<and> (\<forall>pre' post'. t = pre' @ p @ post' \<longrightarrow> length pre \<le> length pre')
        \<and> fillInVariables t ((key, v) # variables)
            = fillInVariables (pre @ getSubstitution p pre post v @ post) variables
        \<and> (CHR ''$'' \<notin> set v \<longrightarrow>
             fillInVariables t ((key, v) # variables) = fillInVariables (pre @ v @ post) variables))"
  using splitFirst_None [of p t] splitFirst_Some [of p t pre post]
    splitFirst_least [of p t pre post]
  by (auto simp: replace_def getSubstitution_plain)

lemma fillInVariables_first_only_example:
  "placeholder ''name'' = Some ''<|NAME|>''
   \<and> splitFirst ''<|NAME|>'' ''a <|NAME|> b <|NAME|>'' = Some (''a '', '' b <|NAME|>'')
   \<and> fillInVariables ''a <|NAME|> b <|NAME|>'' [(''name'', ''Bob'')] = ''a Bob b <|NAME|>''
   \<and> placeholder ''k'' = Some ''<|K|>''
   \<and> fillInVariables ''abc'' [(''k'', ''v'')] = ''abc''
   \<and> placeholder [CHR 0xE9] = Some [CHR ''<'', CHR ''|'', CHR 0xC9, CHR ''|'', CHR ''>'']
   \<and> placeholder [CHR 0xDF] = Some ''<|SS|>''
   \<and> placeholder [CHR 0xFF] = None"
  by code_simp

text \<open>
  Claim C10 at the input where the code departs from it.  The text is the placeholder
  \<^verbatim>\<open><|A|>\<close> and the variable \<^verbatim>\<open>a\<close> has the value \<^verbatim>\<open>$$\<close>.  The placeholder is found, at its
  first and only occurrence, and is replaced by a single dollar sign, not by the value of
  the variable: \<^verbatim>\<open>replace\<close> reads the value as a replacement pattern.
\<close>

theorem fillInVariables_dollar_value:
  "placeholder ''a'' = Some ''<|A|>''
   \<and> splitFirst ''<|A|>'' ''<|A|>'' = Some ([], [])
   \<and> fillInVariables ''<|A|>'' [(''a'', ''$$'')] = ''$''
   \<and> ''$'' \<noteq> ''$$''"
  by code_simp

subsection \<open>verifyActCompletion\<close>

text \<open>
  Claim C6.  When the payload of the response is the empty object, or is no object at all
  (undefined, null, a boolean, a number or a string), \<open>verifyActCompletion\<close> returns a
  result whose \<open>completed\<close> is \<^verbatim>\<open>false\<close>; it does not throw.
\<close>

theorem verifyActCompletion_missing_completed:
  "data r = JObj [] \<or> \<not> isObject (data r) \<Longrightarrow>
   verifyActCompletion (Inr r) start endTime =
     Inr \<lparr>completed = JBool False,
          v_prompt_tokens = promptTokensOf (usage r),
          v_completion_tokens = completionTokensOf (usage r),
          v_inference_time_ms = endTime - start\<rparr>"
  by (cases "data r") (auto simp: verifyActCompletion_def isObject_def Let_def)

theorem verifyActCompletion_missing_completed_witness:
  "data (LLMParsedResponse (JObj []) None) = JObj []
   \<and> verifyActCompletion (Inr (LLMParsedResponse (JObj []) None)) 1000 1100 =
     Inr \<lparr>completed = JBool False, v_prompt_tokens = 0, v_completion_tokens = 0,
          v_inference_time_ms = 100\<rparr>
   \<and> \<not> isObject (data (LLMParsedResponse (JStr ''yes'') None))
   \<and> verifyActCompletion (Inr (LLMParsedResponse (JStr ''yes'') None)) 1000 1100 =
     Inr \<lparr>completed = JBool False, v_prompt_tokens = 0, v_completion_tokens = 0,
          v_inference_time_ms = 100\<rparr>"
  using verifyActCompletion_missing_completed [of "LLMParsedResponse (JObj []) None" 1000 1100]
    verifyActCompletion_missing_completed [of "LLMParsedResponse (JStr ''yes'') None" 1000 1100]
  by (simp add: promptTokensOf_def completionTokensOf_def isObject_def)

subsection \<open>act\<close>

lemma act_no_tools:
  "noToolCalls (llmClient calls) \<Longrightarrow>
   act P llmClient calls retries =
     (if retries \<ge> 2 then (Inr None, Suc calls) else act P llmClient (Suc calls) (retries + 1))"
  by (subst act.simps) (auto simp: noToolCalls_def split: sum.splits)

lemma act_first_tool:
  "firstToolCall (llmClient calls) = Some tc \<Longrightarrow>
   act P llmClient calls retries =
     (if function_name tc = ''skipSection'' then (Inr None, Suc calls)
      else (case P (function_arguments tc) of Inl e \<Rightarrow> (Inl e, Suc calls) | Inr v \<Rightarrow> (Inr (Some v), Suc calls)))"
  by (subst act.simps) (auto simp: firstToolCall_def split: sum.splits option.splits list.splits)

text \<open>
  Claim C4.  With no tool call in the first and second response and a first tool call other
  than \<^verbatim>\<open>skipSection\<close> in the third, \<open>act\<close> (started with \<open>retries = 0\<close>) returns what
  \<^verbatim>\<open>JSON.parse\<close> makes of that call's arguments, after three model calls.  With no tool call
  in all three responses it returns \<^verbatim>\<open>null\<close> after three model calls.  Whenever the first tool
  call of a response is \<^verbatim>\<open>skipSection\<close> it returns \<^verbatim>\<open>null\<close> with that model call, without
  another one.
\<close>

theorem act_retry_boundary:
  "(noToolCalls (llmClient 0) \<and> noToolCalls (llmClient 1)
      \<and> firstToolCall (llmClient 2) = Some tc \<and> function_name tc \<noteq> ''skipSection''
      \<longrightarrow> act JSON_parse llmClient 0 0 =
           (case JSON_parse (function_arguments tc) of
              Inl e \<Rightarrow> (Inl e, 3) | Inr v \<Rightarrow> (Inr (Some v), 3)))
   \<and> (noToolCalls (llmClient 0) \<and> noToolCalls (llmClient 1) \<and> noToolCalls (llmClient 2)
      \<longrightarrow> act JSON_parse llmClient 0 0 = (Inr None, 3))
   \<and> (firstToolCall (llmClient calls) = Some tc \<and> function_name tc = ''skipSection''
      \<longrightarrow> act JSON_parse llmClient calls retries = (Inr None, Suc calls))"
proof (intro conjI impI)
  assume h: "noToolCalls (llmClient 0) \<and> noToolCalls (llmClient 1)
      \<and> firstToolCall (llmClient 2) = Some tc \<and> function_name tc \<noteq> ''skipSection''"
  have "act JSON_parse llmClient 0 0 = act JSON_parse llmClient 1 1"
    using h act_no_tools [of llmClient 0 JSON_parse 0] by simp
  also have "\<dots> = act JSON_parse llmClient 2 2"
    using h act_no_tools [of llmClient 1 JSON_parse 1] by (simp add: numeral_2_eq_2)
  also have "\<dots> = (case JSON_parse (function_arguments tc) of
              Inl e \<Rightarrow> (Inl e, Suc 2) | Inr v \<Rightarrow> (Inr (Some v), Suc 2))"
    using h act_first_tool [of llmClient 2 tc JSON_parse 2] by simp
  finally show "act JSON_parse llmClient 0 0 =
           (case JSON_parse (function_arguments tc) of
              Inl e \<Rightarrow> (Inl e, 3) | Inr v \<Rightarrow> (Inr (Some v), 3))"
    by (simp split: sum.splits)
next
  assume h: "noToolCalls (llmClient 0) \<and> noToolCalls (llmClient 1) \<and> noToolCalls (llmClient 2)"
  have "act JSON_parse llmClient 0 0 = act JSON_parse llmClient 1 1"
    using h act_no_tools [of llmClient 0 JSON_parse 0] by simp
  also have "\<dots> = act JSON_parse llmClient 2 2"
    using h act_no_tools [of llmClient 1 JSON_parse 1] by (simp add: numeral_2_eq_2)
  also have "\<dots> = (Inr None, Suc 2)"
    using h act_no_tools [of llmClient 2 JSON_parse 2] by simp
  finally show "act JSON_parse llmClient 0 0 = (Inr None, 3)"
    by simp
next
  assume "firstToolCall (llmClient calls) = Some tc \<and> function_name tc = ''skipSection''"
  then show "act JSON_parse llmClient calls retries = (Inr None, Suc calls)"
    by (simp add: act_first_tool)
qed

theorem act_retry_boundary_witness:
  "noToolCalls (client3 0) \<and> noToolCalls (client3 1)
    \<and> firstToolCall (client3 2) = Some (ToolCall ''doAction'' ''{}'')
    \<and> function_name (ToolCall ''doAction'' ''{}'') \<noteq> ''skipSection''
    \<and> act (\<lambda>s. Inr s) client3 0 0 = (Inr (Some ''{}''), 3)
    \<and> noToolCalls (Inr (LLMResponse None None))
    \<and> act (\<lambda>s. Inr s) (\<lambda>n. Inr (LLMResponse None None)) 0 0 = (Inr None, 3)
    \<and> firstToolCall (Inr (LLMResponse None (Some [Choice (Some (Message (Some [ToolCall ''skipSection'' ''{}''])))])))
         = Some (ToolCall ''skipSection'' ''{}'')
    \<and> act (\<lambda>s. Inr s) (\<lambda>n. Inr (LLMResponse None (Some [Choice (Some (Message (Some [ToolCall ''skipSection'' ''{}''])))]))) 0 0
         = (Inr None, 1)"
proof -
  have a: "noToolCalls (client3 0)" "noToolCalls (client3 1)"
    "firstToolCall (client3 2) = Some (ToolCall ''doAction'' ''{}'')"
    "function_name (ToolCall ''doAction'' ''{}'') \<noteq> ''skipSection''"
    by (simp_all add: client3_def noToolCalls_def firstToolCall_def toolCallsOf_def)
  have b: "noToolCalls (Inr (LLMResponse None None))"
    by (simp add: noToolCalls_def toolCallsOf_def)
  have c: "firstToolCall (Inr (LLMResponse None (Some [Choice (Some (Message (Some [ToolCall ''skipSection'' ''{}''])))])))
         = Some (ToolCall ''skipSection'' ''{}'')"
    by (simp add: firstToolCall_def toolCallsOf_def)
  note t1 = act_retry_boundary [of client3 "ToolCall ''doAction'' ''{}''" "\<lambda>s. Inr s" 0 0]
  note t2 = act_retry_boundary [of "\<lambda>n. Inr (LLMResponse None None)" "ToolCall ''doAction'' ''{}''" "\<lambda>s. Inr s" 0 0]
  note t3 = act_retry_boundary [of "\<lambda>n. Inr (LLMResponse None (Some [Choice (Some (Message (Some [ToolCall ''skipSection'' ''{}''])))]))"
     "ToolCall ''skipSection'' ''{}''" "\<lambda>s. Inr s" 0 0]
  from t1 a have 1: "act (\<lambda>s. Inr s) client3 0 0 = (Inr (Some ''{}''), 3)" by simp
  from t2 b have 2: "act (\<lambda>s. Inr s) (\<lambda>n. Inr (LLMResponse None None)) 0 0 = (Inr None, 3)" by simp
  from t3 c have 3: "act (\<lambda>s. Inr s) (\<lambda>n. Inr (LLMResponse None (Some [Choice (Some (Message (Some [ToolCall ''skipSection'' ''{}''])))]))) 0 0
         = (Inr None, 1)" by simp
  from a b c 1 2 3 show ?thesis by blast
qed

lemma map_of_setProp: "map_of (setProp k v kvs) = (map_of kvs)(k \<mapsto> v)"
  by (induction kvs) (auto simp: fun_eq_iff)

lemma getProp_setProp:
  "getProp (JObj (setProp k v kvs)) k' = (if k' = k then v else getProp (JObj kvs) k')"
  by (simp add: map_of_setProp)

subsection \<open>extract\<close>

text \<open>
  Claim C5.  When the three model calls return (and the metadata payload can be
  destructured), the returned \<open>prompt_tokens\<close> and \<open>completion_tokens\<close> are the sums of the
  three usages, a missing usage counting 0, and \<open>inference_time_ms\<close> is the sum of the three
  elapsed times.
\<close>

theorem extract_totals:
  assumes "llmClient 0 = Inr r1" "llmClient 1 = Inr r2" "llmClient 2 = Inr r3"
    and "data r3 \<noteq> JUndefined" "data r3 \<noteq> JNull"
  shows "\<exists>res. extract_fn llmClient clock = Inr res
    \<and> getProp res ''prompt_tokens'' =
        JNum (promptTokensOf (usage r1) + promptTokensOf (usage r2) + promptTokensOf (usage r3))
    \<and> getProp res ''completion_tokens'' =
        JNum (completionTokensOf (usage r1) + completionTokensOf (usage r2)
              + completionTokensOf (usage r3))
    \<and> getProp res ''inference_time_ms'' =
        JNum ((extractEndTime clock - extractStartTime clock)
              + (refineEndTime clock - refineStartTime clock)
              + (metadataEndTime clock - metadataStartTime clock))"
  using assms by (simp add: extract_fn_def Let_def getProp_setProp del: getProp.simps)

theorem extract_totals_witness:
  "\<exists>res. extract_fn mockStage mockClock = Inr res
     \<and> getProp res ''prompt_tokens'' = JNum 30
     \<and> getProp res ''completion_tokens'' = JNum 15
     \<and> getProp res ''inference_time_ms'' = JNum 300"
  using extract_totals [of mockStage _ _ _ mockClock, OF mockStage_def mockStage_def mockStage_def]
  by (simp add: mockClock_def promptTokensOf_def completionTokensOf_def del: getProp.simps)

section \<open>Properties of the accessibility tree\<close>

subsection \<open>Lists of calls\<close>


lemma sequence_mem: "sequence xs = Inr ys \<Longrightarrow> y \<in> set ys \<Longrightarrow> Inr y \<in> set xs"
proof (induction xs arbitrary: ys)
  case Nil
  then show ?case by simp
next
  case (Cons x xs)
  then show ?case by (auto split: sum.splits)
qed

lemma sequence_Inl: "sequence xs = Inl e \<Longrightarrow> Inl e \<in> set xs"
proof (induction xs)
  case Nil
  then show ?case by simp
next
  case (Cons x xs)
  then show ?case by (auto split: sum.splits)
qed


lemma map_filter_id_set: "set (List.map_filter id rs) = {y. Some y \<in> set rs}"
  by (force simp: List.map_filter_def)

subsection \<open>The depth bound is never reached\<close>

text \<open>
  The keys of the store are ids of input nodes, and every reference in a \<open>children\<close> array
  is the key of a stored object.
\<close>

lemma fold_invariant:
  "(\<And>x m. P m \<Longrightarrow> P (f x m)) \<Longrightarrow> P m \<Longrightarrow> P (fold f xs m)"
  by (induction xs arbitrary: m) auto

lemma firstPass_keys: "keysIn ks nm \<Longrightarrow> nodeId node \<in> set ks \<Longrightarrow> keysIn ks (firstPass node nm)"
  by (auto simp: keysIn_def firstPass_def)

lemma fold_firstPass_keys:
  "keysIn ks nm \<Longrightarrow> set (map nodeId nodes) \<subseteq> set ks \<Longrightarrow> keysIn ks (fold firstPass nodes nm)"
  by (induction nodes arbitrary: nm) (auto simp: firstPass_keys)

lemma secondPass_keys: "keysIn ks nm \<Longrightarrow> keysIn ks (secondPass node nm)"
  by (auto simp: keysIn_def secondPass_def split: option.splits if_splits)

lemma linkedMap_keys: "keysIn (map nodeId nodes) (linkedMap nodes)"
proof -
  have "keysIn (map nodeId nodes) Map.empty" by (simp add: keysIn_def)
  then have a: "keysIn (map nodeId nodes) (fold firstPass nodes Map.empty)"
    by (simp add: fold_firstPass_keys)
  show ?thesis unfolding linkedMap_def
    by (rule fold_invariant [of "keysIn (map nodeId nodes)" secondPass])
       (simp_all add: secondPass_keys a)
qed

lemma firstPass_unlinked: "unlinked nm \<Longrightarrow> unlinked (firstPass node nm)"
  by (auto simp: unlinked_def firstPass_def)

lemma unlinked_closed: "unlinked nm \<Longrightarrow> closedRefs nm"
  by (auto simp: unlinked_def closedRefs_def)

lemma secondPass_closed:
  assumes "closedRefs nm"
  shows "closedRefs (secondPass node nm)"
proof (cases "truthyStr (parentId node) \<and> nm (nodeId node) \<noteq> None")
  case False
  with assms show ?thesis by (auto simp: secondPass_def)
next
  case True
  show ?thesis
  proof (cases "nm (the (parentId node))")
    case None
    with True assms show ?thesis by (simp add: secondPass_def)
  next
    case (Some parentNode)
    let ?p = "the (parentId node)"
    let ?nm = "nm(?p \<mapsto> pushChild (nodeId node) parentNode)"
    have "closedRefs ?nm"
      unfolding closedRefs_def
    proof (intro allI impI)
      fix k n refs c
      assume h: "?nm k = Some n \<and> childRefs n = Some refs \<and> c \<in> set refs"
      have "nm c \<noteq> None"
      proof (cases "k = ?p")
        case False
        with h assms show ?thesis unfolding closedRefs_def by (metis fun_upd_other)
      next
        case kp: True
        with h have n: "n = pushChild (nodeId node) parentNode" by simp
        show ?thesis
        proof (cases "c = nodeId node")
          case True
          with \<open>truthyStr (parentId node) \<and> nm (nodeId node) \<noteq> None\<close> show ?thesis by simp
        next
          case False
          with h n obtain old where "childRefs parentNode = Some old" "c \<in> set old"
            by (auto simp: pushChild_def split: option.splits)
          with Some assms show ?thesis unfolding closedRefs_def by blast
        qed
      qed
      then show "?nm c \<noteq> None" by simp
    qed
    with True Some show ?thesis by (simp add: secondPass_def)
  qed
qed

lemma linkedMap_closed: "closedRefs (linkedMap nodes)"
proof -
  have "unlinked Map.empty" by (simp add: unlinked_def)
  then have "unlinked (fold firstPass nodes Map.empty)"
    by (rule fold_invariant [of unlinked firstPass, rotated]) (simp add: firstPass_unlinked)
  then have a: "closedRefs (fold firstPass nodes Map.empty)" by (rule unlinked_closed)
  show ?thesis unfolding linkedMap_def
    by (rule fold_invariant [of closedRefs secondPass]) (simp_all add: secondPass_closed a)
qed

text \<open>
  The objects under way are distinct stored keys, so there are at most as many of them as
  keys: with more fuel than keys the recursion ends by itself or by a repeated object.
\<close>

lemma visited_bound:
  "distinct visited \<Longrightarrow> set visited \<subseteq> set ks \<Longrightarrow> length visited \<le> card (set ks)"
  using card_mono [of "set ks" "set visited"] by (simp add: distinct_card)

lemma deref_fuel:
  "keysIn ks nm \<Longrightarrow> distinct visited \<Longrightarrow> set visited \<subseteq> set ks
   \<Longrightarrow> card (set ks) < fuel + length visited
   \<Longrightarrow> deref fuel visited nm k \<noteq> Inl OutOfFuel"
proof (induction fuel arbitrary: visited k)
  case 0
  with visited_bound [of visited ks] show ?case by simp
next
  case (Suc fuel)
  show ?case
  proof (cases "k \<in> set visited \<or> nm k = None")
    case True
    then show ?thesis by (auto split: option.splits)
  next
    case False
    then obtain node where node: "nm k = Some node" "k \<notin> set visited" by auto
    with Suc.prems(1) have k: "k \<in> set ks" by (auto simp: keysIn_def)
    show ?thesis
    proof (cases "childRefs node")
      case None
      with node show ?thesis by simp
    next
      case (Some refs)
      have "Inl OutOfFuel \<notin> set (map (deref fuel (k # visited) nm) refs)"
      proof
        assume "Inl OutOfFuel \<in> set (map (deref fuel (k # visited) nm) refs)"
        then obtain c where c: "deref fuel (k # visited) nm c = Inl OutOfFuel" by auto
        from Suc.prems(4) have "card (set ks) < fuel + length (k # visited)" by simp
        from Suc.IH [OF Suc.prems(1) _ _ this, of c] node(2) Suc.prems(2,3) k c show False by simp
      qed
      with sequence_Inl [of "map (deref fuel (k # visited) nm) refs" OutOfFuel]
      have "sequence (map (deref fuel (k # visited) nm) refs) \<noteq> Inl OutOfFuel" by blast
      with node Some show ?thesis by (auto split: sum.splits)
    qed
  qed
qed

lemma cleanStructuralNodes_fuel:
  "keysIn ks nm \<Longrightarrow> distinct visited \<Longrightarrow> set visited \<subseteq> set ks
   \<Longrightarrow> card (set ks) < limit
   \<Longrightarrow> card (set ks) < fuel + length visited
   \<Longrightarrow> cleanStructuralNodes limit fuel visited nm k \<noteq> Inl OutOfFuel"
proof (induction fuel arbitrary: visited k)
  case 0
  with visited_bound [of visited ks] show ?case by simp
next
  case (Suc fuel)
  show ?case
  proof (cases "k \<in> set visited \<or> nm k = None")
    case True
    then show ?thesis by (auto split: option.splits)
  next
    case False
    then obtain node where node: "nm k = Some node" "k \<notin> set visited" by auto
    with Suc.prems(1) have k: "k \<in> set ks" by (auto simp: keysIn_def)
    have top: "deref limit [] nm k \<noteq> Inl OutOfFuel"
      by (rule deref_fuel [OF Suc.prems(1)]) (use Suc.prems(4) in simp_all)
    show ?thesis
    proof (cases "childRefs node")
      case None
      with node show ?thesis by simp
    next
      case (Some refs)
      have "Inl OutOfFuel \<notin> set (map (cleanStructuralNodes limit fuel (k # visited) nm) refs)"
      proof
        assume "Inl OutOfFuel \<in> set (map (cleanStructuralNodes limit fuel (k # visited) nm) refs)"
        then obtain c where c: "cleanStructuralNodes limit fuel (k # visited) nm c = Inl OutOfFuel"
          by auto
        from Suc.prems(5) have "card (set ks) < fuel + length (k # visited)" by simp
        from Suc.IH [OF Suc.prems(1) _ _ Suc.prems(4) this, of c] node(2) Suc.prems(2,3) k c
        show False by simp
      qed
      with sequence_Inl [of "map (cleanStructuralNodes limit fuel (k # visited) nm) refs" OutOfFuel]
      have "sequence (map (cleanStructuralNodes limit fuel (k # visited) nm) refs) \<noteq> Inl OutOfFuel"
        by blast
      with node Some top show ?thesis
        by (cases "deref limit [] nm k") (auto simp: Let_def split: sum.splits)
    qed
  qed
qed

text \<open>
  buildHierarchicalTree returns a tree or overflows the stack on a cycle of objects; the
  depth bound of the model plays no part.
\<close>

lemma buildHierarchicalTree_fuel: "buildHierarchicalTree nodes \<noteq> Inl OutOfFuel"
proof
  assume a: "buildHierarchicalTree nodes = Inl OutOfFuel"
  let ?d = "Suc (length nodes)"
  let ?g = "cleanStructuralNodes ?d ?d [] (linkedMap nodes)"
  from a have "sequence (map ?g (rootNodes nodes (linkedMap nodes))) = Inl OutOfFuel"
    by (auto simp: buildHierarchicalTree_def Let_def split: sum.splits)
  from sequence_Inl [OF this] obtain k where k: "?g k = Inl OutOfFuel" by auto
  have "card (set (map nodeId nodes)) \<le> length nodes"
    using card_length [of "map nodeId nodes"] by simp
  then have "?g k \<noteq> Inl OutOfFuel"
    by (intro cleanStructuralNodes_fuel [OF linkedMap_keys]) simp_all
  with k show False by simp
qed

lemma deref_closed:
  "closedRefs nm \<Longrightarrow> nm k \<noteq> None \<Longrightarrow> deref fuel visited nm k \<noteq> Inl TypeError"
proof (induction fuel arbitrary: visited k)
  case 0
  then show ?case by simp
next
  case (Suc fuel)
  from Suc.prems(2) obtain node where node: "nm k = Some node" by auto
  show ?case
  proof (cases "childRefs node")
    case None
    with node show ?thesis by simp
  next
    case (Some refs)
    have "Inl TypeError \<notin> set (map (deref fuel (k # visited) nm) refs)"
    proof
      assume "Inl TypeError \<in> set (map (deref fuel (k # visited) nm) refs)"
      then obtain c where c: "c \<in> set refs" "deref fuel (k # visited) nm c = Inl TypeError" by auto
      from Suc.prems(1) node Some c(1) have "nm c \<noteq> None" unfolding closedRefs_def by blast
      from Suc.IH [OF Suc.prems(1) this] c(2) show False by simp
    qed
    with sequence_Inl [of "map (deref fuel (k # visited) nm) refs" TypeError]
    have "sequence (map (deref fuel (k # visited) nm) refs) \<noteq> Inl TypeError" by blast
    with node Some show ?thesis by (auto split: sum.splits)
  qed
qed

lemma cleanStructuralNodes_closed:
  "closedRefs nm \<Longrightarrow> nm k \<noteq> None \<Longrightarrow> cleanStructuralNodes limit fuel visited nm k \<noteq> Inl TypeError"
proof (induction fuel arbitrary: visited k)
  case 0
  then show ?case by simp
next
  case (Suc fuel)
  from Suc.prems(2) obtain node where node: "nm k = Some node" by auto
  have top: "deref limit [] nm k \<noteq> Inl TypeError"
    by (rule deref_closed [OF Suc.prems(1,2)])
  show ?case
  proof (cases "childRefs node")
    case None
    with node show ?thesis by simp
  next
    case (Some refs)
    have "Inl TypeError \<notin> set (map (cleanStructuralNodes limit fuel (k # visited) nm) refs)"
    proof
      assume "Inl TypeError \<in> set (map (cleanStructuralNodes limit fuel (k # visited) nm) refs)"
      then obtain c where c: "c \<in> set refs"
        "cleanStructuralNodes limit fuel (k # visited) nm c = Inl TypeError" by auto
      from Suc.prems(1) node Some c(1) have "nm c \<noteq> None" unfolding closedRefs_def by blast
      from Suc.IH [OF Suc.prems(1) this] c(2) show False by simp
    qed
    with sequence_Inl [of "map (cleanStructuralNodes limit fuel (k # visited) nm) refs" TypeError]
    have "sequence (map (cleanStructuralNodes limit fuel (k # visited) nm) refs) \<noteq> Inl TypeError"
      by blast
    with node Some top show ?thesis
      by (cases "deref limit [] nm k") (auto simp: Let_def split: sum.splits)
  qed
qed

lemma buildHierarchicalTree_closed: "buildHierarchicalTree nodes \<noteq> Inl TypeError"
proof
  assume a: "buildHierarchicalTree nodes = Inl TypeError"
  let ?d = "Suc (length nodes)"
  let ?g = "cleanStructuralNodes ?d ?d [] (linkedMap nodes)"
  from a have "sequence (map ?g (rootNodes nodes (linkedMap nodes))) = Inl TypeError"
    by (auto simp: buildHierarchicalTree_def Let_def split: sum.splits)
  from sequence_Inl [OF this] obtain k where k: "k \<in> set (rootNodes nodes (linkedMap nodes))"
    "?g k = Inl TypeError" by auto
  from k(1) have "linkedMap nodes k \<noteq> None" by (auto simp: rootNodes_def)
  from cleanStructuralNodes_closed [OF linkedMap_closed this, of ?d ?d "[]"] k(2)
  show False by blast
qed

subsection \<open>Collapsing structural nodes\<close>










text \<open>
  The case in which no child of the surviving child survives: a generic root over a
  button whose only child is a named generic leaf.  The button is returned as it is
  stored, and the leaf that was cleaned away is still among its children.
\<close>

lemma collapse_keeps_stored_child:
  "map_sum id tree (buildHierarchicalTree genericOverBareButton)
     = Inr [leafTree ''2'' ''button'' (Some ''foo'') (Some [leafTree ''3'' ''generic'' (Some ''g'') None])]"
  by code_simp

subsection \<open>Structural leaves that survive\<close>

text \<open>
  Claim C2 at the input where the code departs from it.  A button whose only child is a
  named generic leaf: the leaf is cleaned to \<^verbatim>\<open>null\<close>, no child of the button survives, and
  the last line of cleanStructuralNodes returns the button as it is stored, with the
  children it has there.  The tree then holds a generic node without children.
\<close>

theorem buildHierarchicalTree_keeps_removed_children:
  "buildHierarchicalTree buttonOverGeneric =
     Inr \<lparr>tree = [leafTree ''1'' ''button'' None (Some [leafTree ''2'' ''generic'' (Some ''foo'') None])],
          simplified = ''[1] button'' @ [CHR 0x0A] @ ''  [2] generic: foo'' @ [CHR 0x0A]\<rparr>
   \<and> emptyStructural (leafTree ''2'' ''generic'' (Some ''foo'') None)"
  by code_simp

text \<open>On a cycle of objects the cleaning does not return.\<close>

lemma buildHierarchicalTree_cycle:
  "buildHierarchicalTree [flatNode ''1'' ''button'' None None None,
                          flatNode ''1'' ''button'' None (Some ''1'') None] = Inl RangeError"
  by code_simp

subsection \<open>Negative ids\<close>

text \<open>
  The first pass keeps no node with a negative id, and every node of the returned tree
  carries the properties of a stored node: no node of a returned tree has a negative id,
  for every input on which buildHierarchicalTree returns.
\<close>

lemma firstPass_ids: "nonNegativeIds nm \<Longrightarrow> nonNegativeIds (firstPass node nm)"
  by (auto simp: nonNegativeIds_def firstPass_def)

lemma secondPass_ids: "nonNegativeIds nm \<Longrightarrow> nonNegativeIds (secondPass node nm)"
  by (auto simp: nonNegativeIds_def secondPass_def pushChild_def split: option.splits)

lemma linkedMap_ids: "nonNegativeIds (linkedMap nodes)"
proof -
  have a: "nonNegativeIds Map.empty" by (simp add: nonNegativeIds_def)
  have b: "nonNegativeIds (fold firstPass nodes Map.empty)"
    by (rule fold_invariant [of nonNegativeIds firstPass]) (simp_all add: firstPass_ids a)
  show ?thesis unfolding linkedMap_def
    by (rule fold_invariant [of nonNegativeIds secondPass]) (simp_all add: secondPass_ids b)
qed

lemma nonNegativeTree_Node:
  "nonNegativeTree (Node p cs) \<longleftrightarrow>
     \<not> isNegative (parseInt (nodeId p) (Some 10))
     \<and> (case cs of None \<Rightarrow> True | Some ts \<Rightarrow> \<forall>t \<in> set ts. nonNegativeTree t)"
  by (auto simp: nonNegativeTree_def split: option.splits)

lemma truncate_nodeId: "nodeId (AXProps.truncate node) = nodeId node"
  by (simp add: AXProps.truncate_def)

lemma deref_ids:
  "nonNegativeIds nm \<Longrightarrow> deref fuel visited nm k = Inr t \<Longrightarrow> nonNegativeTree t"
proof (induction fuel arbitrary: visited k t)
  case 0
  then show ?case by simp
next
  case (Suc fuel)
  from Suc.prems(2) obtain node where node: "nm k = Some node" "k \<notin> set visited"
    by (auto split: option.splits if_splits)
  with Suc.prems(1) have ok: "\<not> isNegative (parseInt (nodeId node) (Some 10))"
    by (auto simp: nonNegativeIds_def)
  show ?case
  proof (cases "childRefs node")
    case None
    with Suc.prems(2) node ok show ?thesis
      by (auto simp: nonNegativeTree_Node truncate_nodeId)
  next
    case (Some refs)
    with Suc.prems(2) node obtain ts where
      ts: "sequence (map (deref fuel (k # visited) nm) refs) = Inr ts"
      "t = Node (AXProps.truncate node) (Some ts)"
      by (auto split: sum.splits)
    have "\<forall>y \<in> set ts. nonNegativeTree y"
    proof
      fix y assume "y \<in> set ts"
      from sequence_mem [OF ts(1) this] obtain r where "deref fuel (k # visited) nm r = Inr y"
        by auto
      with Suc.IH [OF Suc.prems(1)] show "nonNegativeTree y" by blast
    qed
    with ts(2) ok show ?thesis by (simp add: nonNegativeTree_Node truncate_nodeId)
  qed
qed

lemma cleanStructuralNodes_ids:
  "nonNegativeIds nm \<Longrightarrow> cleanStructuralNodes limit fuel visited nm k = Inr (Some t)
   \<Longrightarrow> nonNegativeTree t"
proof (induction fuel arbitrary: visited k t)
  case 0
  then show ?case by simp
next
  case (Suc fuel)
  from Suc.prems(2) obtain node where node: "nm k = Some node" "k \<notin> set visited"
    by (auto split: option.splits if_splits)
  with Suc.prems(1) have ok: "\<not> isNegative (parseInt (nodeId node) (Some 10))"
    by (auto simp: nonNegativeIds_def)
  show ?case
  proof (cases "childRefs node")
    case None
    with Suc.prems(2) node ok show ?thesis
      by (auto simp: nonNegativeTree_Node truncate_nodeId split: if_splits)
  next
    case (Some refs)
    with Suc.prems(2) node obtain rs where
      rs: "sequence (map (cleanStructuralNodes limit fuel (k # visited) nm) refs) = Inr rs"
      by (auto split: sum.splits if_splits)
    have kids: "\<forall>y \<in> set (List.map_filter id rs). nonNegativeTree y"
    proof
      fix y assume "y \<in> set (List.map_filter id rs)"
      then have "Some y \<in> set rs" by (simp add: map_filter_id_set)
      from sequence_mem [OF rs this] obtain r where
        "cleanStructuralNodes limit fuel (k # visited) nm r = Inr (Some y)" by auto
      with Suc.IH [OF Suc.prems(1)] show "nonNegativeTree y" by blast
    qed
    show ?thesis
    proof (cases "\<not> isStructural (role node) \<and> \<not> length (List.map_filter id rs) > 0")
      case True
      with Suc.prems(2) node Some rs have "deref limit [] nm k = Inr t"
        by (cases "deref limit [] nm k") (auto simp: Let_def simp del: deref.simps split: if_splits)
      with deref_ids [OF Suc.prems(1)] show ?thesis by blast
    next
      case False
      with Suc.prems(2) node Some rs kids ok show ?thesis
        by (auto simp: Let_def nonNegativeTree_Node truncate_nodeId length_Suc_conv
                 simp del: deref.simps split: if_splits)
    qed
  qed
qed

lemma buildHierarchicalTree_no_negative_ids:
  assumes "buildHierarchicalTree nodes = Inr res"
  shows "\<forall>t \<in> set (tree res). nonNegativeTree t"
proof
  fix t assume t: "t \<in> set (tree res)"
  let ?g = "cleanStructuralNodes (Suc (length nodes)) (Suc (length nodes)) [] (linkedMap nodes)"
  from assms obtain rs where rs: "sequence (map ?g (rootNodes nodes (linkedMap nodes))) = Inr rs"
    "tree res = List.map_filter id rs"
    by (auto simp: buildHierarchicalTree_def Let_def split: sum.splits)
  from t rs(2) have "Some t \<in> set rs" by (simp add: map_filter_id_set)
  from sequence_mem [OF rs(1) this] obtain k where "?g k = Inr (Some t)" by auto
  with cleanStructuralNodes_ids [OF linkedMap_ids] show "nonNegativeTree t" by blast
qed

section \<open>Properties of the selector synthesis\<close>

subsection \<open>What a returned selector was checked against\<close>

lemma find_Some_holds: "List.find P xs = Some x \<Longrightarrow> P x"
  by (auto simp: find_Some_iff)

lemma cssPathLoop_unique:
  "cssPathLoop br doc target cur path = Some s \<Longrightarrow> isSelectorUnique br target s"
proof (induction br doc target cur path rule: cssPathLoop.induct)
  case (1 br doc target cur path)
  show ?case
  proof (cases "Some cur \<noteq> documentBody doc \<and> cur \<noteq> []")
    case False
    with "1.prems" show ?thesis by (simp add: cssPathLoop.simps)
  next
    case True
    show ?thesis
    proof (cases "isSelectorUnique br target (joinWith '' > '' path)")
      case u: True
      with True "1.prems" show ?thesis by (simp add: cssPathLoop.simps [of br doc target cur path])
    next
      case nu: False
      show ?thesis
      proof (cases "length (childElements doc (butlast cur)) > 1")
        case many: True
        show ?thesis
        proof (cases "isSelectorUnique br target (joinWith '' > '' (nthChildSegment doc cur # tl path))")
          case u2: True
          with True nu many "1.prems" show ?thesis
            by (simp add: cssPathLoop.simps [of br doc target cur path] Let_def)
        next
          case nu2: False
          with True nu many "1.prems"
          have "cssPathLoop br doc target (butlast cur) (tagAt doc (butlast cur) # nthChildSegment doc cur # tl path) = Some s"
            by (simp add: cssPathLoop.simps [of br doc target cur path] Let_def)
          with "1.IH"(1) [OF True refl nu refl many refl refl nu2] show ?thesis by simp
        qed
      next
        case single: False
        with True nu "1.prems"
        have "cssPathLoop br doc target (butlast cur) (tagAt doc (butlast cur) # path) = Some s"
          by (simp add: cssPathLoop.simps [of br doc target cur path] Let_def)
        with "1.IH"(2) [OF True refl nu refl single] show ?thesis by simp
      qed
    qed
  qed
qed

lemma idTier_unique: "idTier br target element = Some s \<Longrightarrow> isSelectorUnique br target s"
  by (auto simp: idTier_def Let_def split: if_splits)

lemma classTier_unique: "classTier br target element = Some s \<Longrightarrow> isSelectorUnique br target s"
  by (auto simp: classTier_def Let_def split: if_splits dest: find_Some_holds)

lemma textTier_Some:
  "textTier br element = Inr (Some s) \<Longrightarrow>
   (s = exactXPath (tagLower element) (trim (textContent element))
    \<or> s = partialXPath (tagLower element) (trim (textContent element)))
   \<and> (\<exists>n. evaluate br s = Inr [n])"
  by (auto simp: textTier_def Let_def length_Suc_conv split: if_splits sum.splits)

text \<open>
  A selector that generateSelector returns for the element at the point is one of three
  kinds.  The tiers that test with isSelectorUnique (id, test
  attributes, ARIA attributes, form attributes, classes and the path of tags) return a
  selector only when querying it again gives exactly one element, the target.  The text
  tier returns an XPath that \<^verbatim>\<open>document.evaluate\<close> matches exactly once.  Otherwise the
  result is the full \<^verbatim>\<open>nth-child\<close> path below \<^verbatim>\<open>body\<close>, which is returned without a query.
\<close>

lemma generateSelector_verified:
  assumes "generateSelector br doc (Some target) = Some s"
  shows "isSelectorUnique br target s
     \<or> (\<exists>element. elementAt doc target = Some element
          \<and> (s = exactXPath (tagLower element) (trim (textContent element))
              \<or> s = partialXPath (tagLower element) (trim (textContent element)))
          \<and> (\<exists>n. evaluate br s = Inr [n]))
     \<or> s = guaranteedPath doc target"
proof -
  from assms obtain element where el: "elementAt doc target = Some element"
    by (auto simp: generateSelector_def selectorInPage_def split: option.splits)
  let ?early = "orElse (idTier br target element)
                    (orElse (List.find (isSelectorUnique br target) (attrCandidates False element testAttrs))
                    (orElse (List.find (isSelectorUnique br target) (attrCandidates True element ariaAttrs))
                    (orElse (List.find (isSelectorUnique br target) (attrCandidates True element formAttrs))
                            (classTier br target element))))"
  show ?thesis
  proof (cases ?early)
    case (Some sel)
    with assms el have "s = sel" by (simp add: generateSelector_def selectorInPage_def)
    moreover from Some have "isSelectorUnique br target sel"
      by (auto simp: orElse_def split: option.splits
               dest: find_Some_holds idTier_unique classTier_unique)
    ultimately show ?thesis by simp
  next
    case None
    show ?thesis
    proof (cases "textTier br element")
      case (Inl e)
      with assms el None show ?thesis by (simp add: generateSelector_def selectorInPage_def)
    next
      case (Inr r)
      show ?thesis
      proof (cases r)
        case (Some sel)
        with assms el None Inr have "s = sel" by (simp add: generateSelector_def selectorInPage_def)
        with textTier_Some [of br element sel] Inr Some el show ?thesis by blast
      next
        case tn: None
        show ?thesis
        proof (cases "cssPathLoop br doc target target [tagLower element]")
          case (Some sel)
          with assms el None Inr tn have "s = sel" by (simp add: generateSelector_def selectorInPage_def)
          with cssPathLoop_unique [OF Some] show ?thesis by simp
        next
          case cn: None
          with assms el None Inr tn have "s = guaranteedPath doc target"
            by (simp add: generateSelector_def selectorInPage_def)
          then show ?thesis by simp
        qed
      qed
    qed
  qed
qed


lemma generateSelector_verified_example:
  "generateSelector testIdBrowser testIdPage (Some [0, 0]) = Some ''#main''
   \<and> isSelectorUnique testIdBrowser [0, 0] ''#main''"
proof -
  have a: "generateSelector testIdBrowser testIdPage (Some [0, 0]) = Some ''#main''" by code_simp
  let ?E = "Element ''DIV'' [(''id'', ''main''), (''data-testid'', ''submit'')] []"
  have el: "elementAt testIdPage [0, 0] = Some ?E" by code_simp
  have x1: "''#main'' \<noteq> exactXPath (tagLower ?E) (trim (textContent ?E))" by code_simp
  have x2: "''#main'' \<noteq> partialXPath (tagLower ?E) (trim (textContent ?E))" by code_simp
  from el x1 x2 have na: "\<not> (\<exists>element. elementAt testIdPage [0, 0] = Some element
          \<and> (''#main'' = exactXPath (tagLower element) (trim (textContent element))
              \<or> ''#main'' = partialXPath (tagLower element) (trim (textContent element)))
          \<and> (\<exists>n. evaluate testIdBrowser ''#main'' = Inr [n]))"
    by auto
  have nb: "''#main'' \<noteq> guaranteedPath testIdPage [0, 0]" by code_simp
  from generateSelector_verified [OF a] na nb
  have c: "isSelectorUnique testIdBrowser [0, 0] ''#main''" by blast
  from a c show ?thesis by blast
qed

text \<open>
  Claim C1 at the input where the code departs from it.  On the page with two \<^verbatim>\<open>div\<close>s
  the element at the point is the second one.  Its text is \<^verbatim>\<open>Hello\<close>, so the text tier
  builds the XPath for a \<^verbatim>\<open>div\<close> with that text; the XPath matches once, and the match is
  the first \<^verbatim>\<open>div\<close>.  The tier counts the matches and does not compare the match with the
  element, as isSelectorUnique does for every other tier, so the XPath is returned: a
  selector that resolves to exactly one element, which is not the target.
\<close>

theorem generateSelector_text_tier_other_element:
  "elementAt helloPage [0, 1] = Some (Element ''DIV'' [] [Element ''SPAN'' [] [Text ''Hello'']])
   \<and> generateSelector helloBrowser helloPage (Some [0, 1]) = Some helloXPath
   \<and> requery helloBrowser helloXPath = Inr [[0, 0]]
   \<and> [0, 0] \<noteq> [0, (1::nat)]"
  by code_simp

text \<open>
  The full path is not queried at all.  When the element at the point is the root element,
  which has no \<open>parentElement\<close>, the path is plain \<^verbatim>\<open>body\<close>, which resolves to the body
  element.
\<close>

lemma generateSelector_root_element:
  "generateSelector helloBrowser helloPage (Some []) = Some ''body''
   \<and> requery helloBrowser ''body'' = Inr [[0]]
   \<and> [0] \<noteq> ([]::nat list)"
  by code_simp

subsection \<open>The order of the first two tiers\<close>

lemma find_map_filter_first:
  assumes "f a = Some s" "P s" "\<And>b w. b \<in> set pre \<Longrightarrow> f b = Some w \<Longrightarrow> \<not> P w"
  shows "List.find P (List.map_filter f (pre @ a # post)) = Some s"
  using assms(3)
proof (induction pre)
  case Nil
  with assms(1,2) show ?case by (simp add: List.map_filter_simps)
next
  case (Cons b pre)
  then show ?case
    by (cases "f b") (auto simp: List.map_filter_simps)
qed

text \<open>
  The order in which this version tries the two tiers.  When the target has an id that is
  not empty and not likely dynamic, and its id selector is unique, generateSelector returns
  the id selector, whatever test attributes the element carries.  When the id tier gives
  nothing (no id, a dynamic id, or an id selector that is not unique), the result is the
  selector of the first test attribute, in the order of the list, that has a value and a
  unique selector.
\<close>

lemma generateSelector_id_first:
  assumes "elementAt doc target = Some element"
  shows "(elementId element \<noteq> [] \<and> \<not> isLikelyDynamicId (elementId element)
           \<and> isSelectorUnique br target (''#'' @ CSS_escape (elementId element))
          \<longrightarrow> generateSelector br doc (Some target) = Some (''#'' @ CSS_escape (elementId element)))
     \<and> ((elementId element = [] \<or> isLikelyDynamicId (elementId element)
            \<or> \<not> isSelectorUnique br target (''#'' @ CSS_escape (elementId element)))
           \<and> testAttrs = earlier @ attr # later
           \<and> truthyAttr element attr = Some v
           \<and> isSelectorUnique br target (attrSelector False element attr v)
           \<and> (\<forall>b \<in> set earlier. \<forall>w. truthyAttr element b = Some w
                  \<longrightarrow> \<not> isSelectorUnique br target (attrSelector False element b w))
          \<longrightarrow> generateSelector br doc (Some target) = Some (attrSelector False element attr v))"
proof (intro conjI impI)
  assume "elementId element \<noteq> [] \<and> \<not> isLikelyDynamicId (elementId element)
           \<and> isSelectorUnique br target (''#'' @ CSS_escape (elementId element))"
  then have "idTier br target element = Some (''#'' @ CSS_escape (elementId element))"
    by (simp add: idTier_def Let_def)
  with assms show "generateSelector br doc (Some target) = Some (''#'' @ CSS_escape (elementId element))"
    by (simp add: generateSelector_def selectorInPage_def orElse_def)
next
  assume h: "(elementId element = [] \<or> isLikelyDynamicId (elementId element)
            \<or> \<not> isSelectorUnique br target (''#'' @ CSS_escape (elementId element)))
           \<and> testAttrs = earlier @ attr # later
           \<and> truthyAttr element attr = Some v
           \<and> isSelectorUnique br target (attrSelector False element attr v)
           \<and> (\<forall>b \<in> set earlier. \<forall>w. truthyAttr element b = Some w
                  \<longrightarrow> \<not> isSelectorUnique br target (attrSelector False element b w))"
  then have 1: "idTier br target element = None"
    by (auto simp: idTier_def Let_def)
  let ?f = "\<lambda>attr. map_option (attrSelector False element attr) (truthyAttr element attr)"
  have "List.find (isSelectorUnique br target) (List.map_filter ?f (earlier @ attr # later))
          = Some (attrSelector False element attr v)"
  proof (rule find_map_filter_first)
    show "?f attr = Some (attrSelector False element attr v)" using h by simp
    show "isSelectorUnique br target (attrSelector False element attr v)" using h by simp
    show "\<And>b w. b \<in> set earlier \<Longrightarrow> ?f b = Some w \<Longrightarrow> \<not> isSelectorUnique br target w"
      using h by auto
  qed
  with h have 2: "List.find (isSelectorUnique br target) (attrCandidates False element testAttrs)
          = Some (attrSelector False element attr v)"
    by (simp add: attrCandidates_def)
  from assms 1 2 show "generateSelector br doc (Some target) = Some (attrSelector False element attr v)"
    by (simp add: generateSelector_def selectorInPage_def orElse_def)
qed

lemma generateSelector_id_first_example:
  "elementAt testIdPage [0, 0] = Some mainDiv
   \<and> elementId mainDiv \<noteq> [] \<and> \<not> isLikelyDynamicId (elementId mainDiv)
   \<and> isSelectorUnique testIdBrowser [0, 0] (''#'' @ CSS_escape (elementId mainDiv))
   \<and> generateSelector testIdBrowser testIdPage (Some [0, 0]) = Some ''#main''
   \<and> elementAt testOnlyPage [0, 0] = Some testDiv
   \<and> elementId testDiv = []
   \<and> testAttrs = [''data-testid'', ''data-test''] @ ''data-cy'' # drop 3 testAttrs
   \<and> truthyAttr testDiv ''data-testid'' = None
   \<and> truthyAttr testDiv ''data-test'' = None
   \<and> truthyAttr testDiv ''data-cy'' = Some ''submit''
   \<and> isSelectorUnique testOnlyBrowser [0, 0] (attrSelector False testDiv ''data-cy'' ''submit'')
   \<and> generateSelector testOnlyBrowser testOnlyPage (Some [0, 0])
        = Some (''[data-cy='' @ dq @ ''submit'' @ dq @ '']'')"
proof -
  have a: "elementAt testIdPage [0, 0] = Some mainDiv" by code_simp
  have b: "elementId mainDiv \<noteq> [] \<and> \<not> isLikelyDynamicId (elementId mainDiv)
     \<and> isSelectorUnique testIdBrowser [0, 0] (''#'' @ CSS_escape (elementId mainDiv))" by code_simp
  have c: "''#'' @ CSS_escape (elementId mainDiv) = ''#main''" by code_simp
  from generateSelector_id_first [OF a, of testIdBrowser] b c
  have d: "generateSelector testIdBrowser testIdPage (Some [0, 0]) = Some ''#main''" by simp
  have e: "elementAt testOnlyPage [0, 0] = Some testDiv" by code_simp
  have f: "elementId testDiv = []" by code_simp
  have g: "testAttrs = [''data-testid'', ''data-test''] @ ''data-cy'' # drop 3 testAttrs" by code_simp
  have h: "truthyAttr testDiv ''data-testid'' = None" "truthyAttr testDiv ''data-test'' = None"
    "truthyAttr testDiv ''data-cy'' = Some ''submit''" by code_simp+
  have i: "isSelectorUnique testOnlyBrowser [0, 0] (attrSelector False testDiv ''data-cy'' ''submit'')"
    by code_simp
  have j: "attrSelector False testDiv ''data-cy'' ''submit'' = ''[data-cy='' @ dq @ ''submit'' @ dq @ '']''"
    by code_simp
  from h have q: "\<forall>b \<in> set [''data-testid'', ''data-test'']. \<forall>w. truthyAttr testDiv b = Some w
     \<longrightarrow> \<not> isSelectorUnique testOnlyBrowser [0, 0] (attrSelector False testDiv b w)" by simp
  from generateSelector_id_first [OF e, of testOnlyBrowser "[''data-testid'', ''data-test'']"
      "''data-cy''" "drop 3 testAttrs" "''submit''"] f g h(3) i q
  have "generateSelector testOnlyBrowser testOnlyPage (Some [0, 0])
        = Some (attrSelector False testDiv ''data-cy'' ''submit'')" by blast
  with j have k: "generateSelector testOnlyBrowser testOnlyPage (Some [0, 0])
        = Some (''[data-cy='' @ dq @ ''submit'' @ dq @ '']'')" by simp
  from a b d e f g h i k show ?thesis by blast
qed

text \<open>
  Claim C3 at the input where the code departs from it.  The \<^verbatim>\<open>div\<close> of the page carries
  the test attribute \<^verbatim>\<open>data-testid\<close>, whose selector is unique, and the plain id \<^verbatim>\<open>main\<close>,
  whose selector is unique too.  generateSelector returns the id selector: in this version
  the id tier stands before the loop over the test attributes, whereas
  getActiveElementSelector of the same class and the other version of generateSelector
  try the test attributes first.
\<close>

theorem generateSelector_id_before_test_attr:
  "elementAt testIdPage [0, 0] = Some mainDiv
   \<and> truthyAttr mainDiv ''data-testid'' = Some ''submit''
   \<and> isSelectorUnique testIdBrowser [0, 0] (attrSelector False mainDiv ''data-testid'' ''submit'')
   \<and> generateSelector testIdBrowser testIdPage (Some [0, 0]) = Some ''#main''
   \<and> ''#main'' \<noteq> attrSelector False mainDiv ''data-testid'' ''submit''"
  by code_simp

subsection \<open>Generated ids of the focused element\<close>

text \<open>
  Claim C7 at the input where the code departs from it.  The focused element is an input
  whose id \<^verbatim>\<open>radix-:r3:\<close> is likely dynamic by isLikelyDynamicId and which has no test
  attribute.  getActiveElementSelector returns the raw id selector: its id step does not
  test the id.
\<close>

theorem getActiveElementSelector_raw_id:
  "elementAt radixPage [0, 0] = Some radixInput
   \<and> elementId radixInput = ''radix-:r3:''
   \<and> isLikelyDynamicId (elementId radixInput)
   \<and> getActiveElementSelector radixPage (Some [0, 0]) = Some ''#radix-:r3:''"
  by code_simp

subsection \<open>Generated ids of the element at a point\<close>

text \<open>
  generateSelector, for its part, never returns an id selector for an element whose id is
  likely dynamic: the id tier is skipped, and every other tier returns a selector that
  starts with a tag name, a bracket, a slash or \<^verbatim>\<open>body\<close>.  Tag names do not start with a
  hash sign.
\<close>

lemma hashFree_append: "hashFree t \<Longrightarrow> c \<noteq> CHR ''#'' \<Longrightarrow> hashFree (t @ c # r)"
  by (cases t) (auto simp: hashFree_def)

lemma hashFree_joinWith: "hashFree y \<Longrightarrow> hashFree (joinWith '' > '' (y # ys))"
  by (cases y; cases ys) (auto simp: hashFree_def joinWith_def)

lemma hashFree_attrSelector:
  "hashFree (tagLower element) \<Longrightarrow> hashFree (attrSelector withTag element attr v)"
  by (cases "tagLower element") (auto simp: attrSelector_def hashFree_def)

lemma hashFree_attrCandidates:
  "hashFree (tagLower element) \<Longrightarrow> s \<in> set (attrCandidates withTag element names) \<Longrightarrow> hashFree s"
  by (auto simp: attrCandidates_def List.map_filter_def hashFree_attrSelector)

lemma find_Some_mem: "List.find P xs = Some x \<Longrightarrow> x \<in> set xs"
  by (auto simp: find_Some_iff)

lemma hashFree_classTier:
  "hashFree (tagLower element) \<Longrightarrow> classTier br target element = Some s \<Longrightarrow> hashFree s"
  by (auto simp: classTier_def Let_def hashFree_append split: if_splits dest!: find_Some_mem)

lemma hashFree_textTier: "textTier br element = Inr (Some s) \<Longrightarrow> hashFree s"
  by (auto simp: textTier_def Let_def exactXPath_def partialXPath_def hashFree_def
           split: if_splits sum.splits)

lemma hashFree_nthChildSegment: "hashFree (tagAt doc cur) \<Longrightarrow> hashFree (nthChildSegment doc cur)"
  unfolding nthChildSegment_def
  using hashFree_append [of "tagAt doc cur" "CHR '':''"] by simp

lemma hashFree_cssPathLoop:
  "\<forall>p. hashFree (tagAt doc p) \<Longrightarrow> path \<noteq> [] \<Longrightarrow> hashFree (hd path)
   \<Longrightarrow> cssPathLoop br doc target cur path = Some s \<Longrightarrow> hashFree s"
proof (induction br doc target cur path rule: cssPathLoop.induct)
  case (1 br doc target cur path)
  note tags = "1.prems"(1)
  from "1.prems"(2) obtain y ys where path: "path = y # ys" by (cases path) auto
  with "1.prems"(3) have y: "hashFree y" by simp
  have seg: "hashFree (nthChildSegment doc cur)"
    using tags by (simp add: hashFree_nthChildSegment)
  have up: "hashFree (tagAt doc (butlast cur))" using tags by simp
  show ?case
  proof (cases "Some cur \<noteq> documentBody doc \<and> cur \<noteq> []")
    case False
    with "1.prems"(4) show ?thesis by (simp add: cssPathLoop.simps)
  next
    case True
    show ?thesis
    proof (cases "isSelectorUnique br target (joinWith '' > '' path)")
      case u: True
      with True "1.prems"(4) have "s = joinWith '' > '' path"
        by (simp add: cssPathLoop.simps [of br doc target cur path])
      with path y show ?thesis by (simp add: hashFree_joinWith)
    next
      case nu: False
      show ?thesis
      proof (cases "length (childElements doc (butlast cur)) > 1")
        case many: True
        show ?thesis
        proof (cases "isSelectorUnique br target (joinWith '' > '' (nthChildSegment doc cur # tl path))")
          case u2: True
          with True nu many "1.prems"(4) have "s = joinWith '' > '' (nthChildSegment doc cur # tl path)"
            by (simp add: cssPathLoop.simps [of br doc target cur path] Let_def)
          with seg show ?thesis by (simp add: hashFree_joinWith)
        next
          case nu2: False
          with True nu many "1.prems"(4)
          have "cssPathLoop br doc target (butlast cur) (tagAt doc (butlast cur) # nthChildSegment doc cur # tl path) = Some s"
            by (simp add: cssPathLoop.simps [of br doc target cur path] Let_def)
          with "1.IH"(1) [OF True refl nu refl many refl refl nu2 tags] up show ?thesis by simp
        qed
      next
        case single: False
        with True nu "1.prems"(4)
        have "cssPathLoop br doc target (butlast cur) (tagAt doc (butlast cur) # path) = Some s"
          by (simp add: cssPathLoop.simps [of br doc target cur path] Let_def)
        with "1.IH"(2) [OF True refl nu refl single tags] up show ?thesis by simp
      qed
    qed
  qed
qed

lemma hashFree_guaranteedPath: "hashFree (guaranteedPath doc target)"
proof -
  have "hashFree (joinWith '' > '' (''body'' # fullPathLoop doc target []))"
    by (rule hashFree_joinWith) (simp add: hashFree_def)
  then show ?thesis by (simp add: guaranteedPath_def stabiliseIdSelector_def hashFree_def)
qed

lemma tagLower_tagAt: "elementAt doc target = Some element \<Longrightarrow> tagLower element = tagAt doc target"
  by (auto simp: elementAt_def tagAt_def split: option.splits if_splits)

lemma generateSelector_no_raw_dynamic_id:
  assumes tags: "\<forall>p. hashFree (tagAt doc p)"
    and el: "elementAt doc target = Some element"
    and dyn: "isLikelyDynamicId (elementId element)"
    and res: "generateSelector br doc (Some target) = Some s"
  shows "hashFree s"
proof -
  from tags el have tag: "hashFree (tagLower element)" by (simp add: tagLower_tagAt)
  from dyn have id0: "idTier br target element = None" by (simp add: idTier_def)
  let ?early = "orElse (List.find (isSelectorUnique br target) (attrCandidates False element testAttrs))
                    (orElse (List.find (isSelectorUnique br target) (attrCandidates True element ariaAttrs))
                    (orElse (List.find (isSelectorUnique br target) (attrCandidates True element formAttrs))
                            (classTier br target element)))"
  show ?thesis
  proof (cases ?early)
    case (Some sel)
    with res el id0 have "s = sel" by (simp add: generateSelector_def selectorInPage_def orElse_def)
    moreover from Some tag have "hashFree sel"
      by (auto simp: orElse_def split: option.splits
               dest!: find_Some_mem dest: hashFree_attrCandidates hashFree_classTier)
    ultimately show ?thesis by simp
  next
    case None
    then have early: "orElse (idTier br target element) ?early = None"
      using id0 by (simp add: orElse_def)
    show ?thesis
    proof (cases "textTier br element")
      case (Inl e)
      with res el early show ?thesis by (simp add: generateSelector_def selectorInPage_def)
    next
      case (Inr r)
      show ?thesis
      proof (cases r)
        case (Some sel)
        with res el early Inr have "s = sel" by (simp add: generateSelector_def selectorInPage_def)
        with hashFree_textTier [of br element sel] Inr Some show ?thesis by simp
      next
        case tn: None
        show ?thesis
        proof (cases "cssPathLoop br doc target target [tagLower element]")
          case (Some sel)
          with res el early Inr tn have "s = sel" by (simp add: generateSelector_def selectorInPage_def)
          with hashFree_cssPathLoop [OF tags, of "[tagLower element]" br target target sel] Some tag
          show ?thesis by simp
        next
          case cn: None
          with res el early Inr tn have "s = guaranteedPath doc target"
            by (simp add: generateSelector_def selectorInPage_def)
          then show ?thesis by (simp add: hashFree_guaranteedPath)
        qed
      qed
    qed
  qed
qed

section \<open>Properties of the action executor\<close>

text \<open>
  Claim C8 at the inputs where the code departs from it.  For a \<^verbatim>\<open>wait\<close> action on a page
  whose screenshot before the action rejects, executeAction rejects with that error: the
  action is not dispatched and recordAction is not called.  When the screenshot after the
  action rejects, the action has been dispatched, executeAction rejects all the same and
  nothing is recorded.  With both screenshots working the action succeeds and is recorded.
\<close>

theorem executeAction_screenshot_failure:
  "executeAction noCameraEnv Wait [] =
     \<lparr>outcome = Inl (Thrown ''Target closed''), recorded = [], dispatched = False,
      recorderCalled = False\<rparr>
   \<and> executeAction lateCameraEnv Wait [] =
     \<lparr>outcome = Inl (Thrown ''Target closed''), recorded = [], dispatched = True,
      recorderCalled = False\<rparr>
   \<and> executeAction calmEnv Wait [] =
     \<lparr>outcome = Inr \<lparr>success = True, error_msg = None\<rparr>,
      recorded = [\<lparr>action = ''wait'', rec_success = True, selector = None,
                   details = [(''duration'', JNum 1000)]\<rparr>],
      dispatched = True, recorderCalled = True\<rparr>"
  by code_simp

text \<open>
  The part of the claim that the code keeps: when both screenshots work, recordAction is
  called with the outcome on every path, also when the driver call of the dispatched branch
  rejects, and the session gets an entry with the outcome's \<open>success\<close>.  No entry is made
  for a screenshot action, nor for a scroll when recordAction cannot read the cursor.
\<close>

lemma executeAction_records_outcome:
  assumes "beforeScreenshot env = None" "afterScreenshot env = None"
  shows "recorderCalled (executeAction env a rs)
     \<and> (\<exists>result. outcome (executeAction env a rs) = Inr result
          \<and> (a \<noteq> Screenshot \<and> (\<forall>dx dy. a = Scroll dx dy \<longrightarrow> (\<exists>p. cursorPosition env = Inr p))
              \<longrightarrow> (\<exists>entry. recorded (executeAction env a rs) = rs @ [entry]
                     \<and> rec_success entry = success result)))"
  using assms
  by (cases a) (auto simp: executeAction_def recordAction_def Let_def split: prod.splits sum.splits)

lemma executeAction_driver_error:
  "executeAction brokenDriverEnv (Click 1 2 None) [] =
     \<lparr>outcome = Inr \<lparr>success = False, error_msg = Some ''Timeout''\<rparr>,
      recorded = [\<lparr>action = ''click'', rec_success = False, selector = Some ''#main'',
                   details = [(''button'', JStr ''left''), (''x'', JNum 1), (''y'', JNum 2)]\<rparr>],
      dispatched = True, recorderCalled = True\<rparr>"
  by code_simp

end
